theory Spec2Isabelle
  imports Main
begin

section \<open>Python values used by 9dttt_bot.py\<close>

text \<open>
  A Python \<open>str\<close> is a sequence of Unicode code points and \<open>len\<close> counts code points,
  so a string is a list of code points.  The bot's texts contain U+2026 (the one-character
  ellipsis) and U+1F3AE (the game pad), which are single characters for \<open>len\<close>.
\<close>

type_synonym pystr = "nat list"

definition ascii :: "string \<Rightarrow> pystr" where
  "ascii s = map of_char s"

definition ELLIPSIS :: nat where
  "ELLIPSIS = 8230"

definition GAMEPAD :: nat where
  "GAMEPAD = 127918"

definition GAME_LINK :: pystr where
  "GAME_LINK = ascii ''https://www.9dttt.com''"

definition BOT_NAME :: pystr where
  "BOT_NAME = ascii ''9DTTT BOT''"

definition TWITTER_CHAR_LIMIT :: nat where
  "TWITTER_CHAR_LIMIT = 280"

text \<open>\<open>needle in hay\<close> on strings: the needle occurs as a contiguous run.\<close>

fun py_in :: "pystr \<Rightarrow> pystr \<Rightarrow> bool" where
  "py_in needle [] = (needle = [])"
| "py_in needle (c # cs) = (take (length needle) (c # cs) = needle \<or> py_in needle cs)"

text \<open>
  \<open>str.lower\<close>: the model lowers the ASCII capitals and leaves every other code point as
  it is.  The three needles below are ASCII, so the only use made of the result, a search
  for them, sees the letters A to Z lowered as Python does.
\<close>

definition lower_char :: "nat \<Rightarrow> nat" where
  "lower_char c = (if 65 \<le> c \<and> c \<le> 90 then c + 32 else c)"

definition py_lower :: "pystr \<Rightarrow> pystr" where
  "py_lower s = map lower_char s"

definition py_endswith :: "pystr \<Rightarrow> pystr \<Rightarrow> bool" where
  "py_endswith s suf = (length suf \<le> length s \<and> drop (length s - length suf) s = suf)"

text \<open>
  JSON documents as \<open>json.load\<close> and \<open>request.json\<close> return them (numbers restricted to
  integers).  \<open>JNull\<close> is Python's \<open>None\<close>; an object is a dict, kept as an association
  list that is read with \<open>map_of\<close>.
\<close>

datatype json =
    JNull
  | JBool bool
  | JNum int
  | JStr pystr
  | JArr "json list"
  | JObj "(pystr \<times> json) list"

text \<open>Truth value of a Python object, as \<open>if x:\<close> and \<open>not x\<close> test it.\<close>

fun py_truthy :: "json \<Rightarrow> bool" where
  "py_truthy JNull = False"
| "py_truthy (JBool b) = b"
| "py_truthy (JNum n) = (n \<noteq> 0)"
| "py_truthy (JStr s) = (s \<noteq> [])"
| "py_truthy (JArr xs) = (xs \<noteq> [])"
| "py_truthy (JObj kvs) = (kvs \<noteq> [])"

text \<open>
  The optional arguments of \<open>safe_post_tweet\<close> default to \<open>None\<close> and are tested by truth
  value: a reply identifier counts as given when it is not \<open>None\<close> and not \<open>0\<close>, a media
  list when it is not \<open>None\<close> and not empty.
\<close>

fun truthy_id :: "int option \<Rightarrow> bool" where
  "truthy_id None = False"
| "truthy_id (Some i) = (i \<noteq> 0)"

fun truthy_media :: "pystr list option \<Rightarrow> bool" where
  "truthy_media None = False"
| "truthy_media (Some ms) = (ms \<noteq> [])"

section \<open>Exceptions, effects and the outside world\<close>

text \<open>
  An exception is its class, as far as the \<open>except\<close> clauses of the bot tell classes apart,
  and its \<open>str(e)\<close>.  \<open>except Exception\<close> catches all three classes.
\<close>

datatype exc_class = TweepyException | OSError | OtherException

datatype exn = Exn exc_class pystr

fun exn_class :: "exn \<Rightarrow> exc_class" where
  "exn_class (Exn c m) = c"

fun exn_str :: "exn \<Rightarrow> pystr" where
  "exn_str (Exn c m) = m"

datatype level = INFO | WARNING | ERROR

datatype mention = Mention (mention_id: int) (author_id: int) (mention_text: pystr)

text \<open>
  Calls that leave the process.  \<open>CreateTweet\<close> carries the keyword arguments of
  \<open>client.create_tweet\<close> (an absent key is \<open>None\<close>), \<open>UpdateStatus\<close> those of
  \<open>api_v1.update_status\<close>, where the reply identifier comes with
  \<open>auto_populate_reply_metadata\<close>.
\<close>

datatype api_call =
    CreateTweet pystr "pystr list option" "int option"
  | UpdateStatus pystr "pystr list option" "(int \<times> bool) option"
  | GetMe
  | GetUsersMentions int
  | GetUser int
  | Like int
  | GenerateResponse pystr pystr pystr
  | WriteFile pystr "json list"

text \<open>An event is a call with whether it returned (\<open>True\<close>) or raised, or a log record.\<close>

datatype event = Call api_call bool | Log level string

text \<open>
  A file holds a JSON document, or text that \<open>json.load\<close> rejects (\<open>Unparseable\<close>): for
  instance the empty or cut-off file that is left when a write fails after
  \<open>open(filename, 'w')\<close> has truncated it.
\<close>

datatype file_data = Unparseable | Doc json

record state =
  trace :: "event list"
  files :: "pystr \<Rightarrow> file_data option"

text \<open>
  How a write to a file can fail: \<open>open\<close> raises and the file is untouched, or
  \<open>json.dump\<close> raises after \<open>open\<close> has truncated the file.
\<close>

datatype write_fault = OpenFails exn | DumpFails exn

datatype handler =
  Win | GameStart | Tournament | Achievement | Challenge | Leaderboard

text \<open>
  The answers of the outside world.  Each is a function of the number of events so far
  and of the call's arguments, so that the same call can succeed once and fail later.
  \<open>generate_contextual_response\<close> and the six \<open>handle_..._event\<close> functions are called by
  the file but not defined in it; they are parameters, as are the random draw of
  \<open>get_personality_line\<close> and the faults of the file system.
\<close>

record world =
  create_tweet :: "nat \<Rightarrow> pystr \<Rightarrow> pystr list option \<Rightarrow> int option \<Rightarrow> exn option"
  update_status :: "nat \<Rightarrow> pystr \<Rightarrow> pystr list option \<Rightarrow> (int \<times> bool) option \<Rightarrow> exn option"
  get_me :: "nat \<Rightarrow> exn + (int \<times> pystr) option"
  get_users_mentions :: "nat \<Rightarrow> int \<Rightarrow> exn + mention list option"
  get_user :: "nat \<Rightarrow> int \<Rightarrow> exn + pystr option"
  like :: "nat \<Rightarrow> int \<Rightarrow> exn option"
  generate_contextual_response :: "nat \<Rightarrow> pystr \<Rightarrow> pystr \<Rightarrow> pystr \<Rightarrow> exn + pystr"
  get_personality_line :: "nat \<Rightarrow> pystr"
  file_write :: "nat \<Rightarrow> pystr \<Rightarrow> write_fault option"
  handle_event :: "handler \<Rightarrow> json \<Rightarrow> state \<Rightarrow> (exn + unit) \<times> state"

definition clock :: "state \<Rightarrow> nat" where
  "clock st = length (trace st)"

definition emit :: "event \<Rightarrow> state \<Rightarrow> state" where
  "emit e st = st\<lparr>trace := trace st @ [e]\<rparr>"

text \<open>The events a run added to the trace it started from.\<close>

definition new_events :: "state \<Rightarrow> state \<Rightarrow> event list" where
  "new_events st st' = drop (length (trace st)) (trace st')"

section \<open>safe_post_tweet\<close>

text \<open>Lines 80 to 84: the truncation safeguard.\<close>

definition truncate_text :: "pystr \<Rightarrow> int option \<Rightarrow> pystr" where
  "truncate_text text in_reply_to_tweet_id =
     (if length text > TWITTER_CHAR_LIMIT then
        (if truthy_id in_reply_to_tweet_id
         then take (TWITTER_CHAR_LIMIT - 60) text @ ascii ''...''
         else take (TWITTER_CHAR_LIMIT - 20) text @ [ELLIPSIS])
      else text)"

text \<open>Line 100: the test that sends a failed v2 post to the v1.1 fallback.\<close>

definition quota_error :: "pystr \<Rightarrow> bool" where
  "quota_error msg =
     (let error_str = py_lower msg
      in py_in (ascii ''402'') error_str
         \<or> py_in (ascii ''creditsdepleted'') error_str
         \<or> py_in (ascii ''payment required'') error_str)"

text \<open>Lines 107 to 121: the v1.1 fallback, whose \<open>except Exception\<close> catches every failure.\<close>

definition v1_fallback ::
  "world \<Rightarrow> state \<Rightarrow> pystr \<Rightarrow> pystr list option \<Rightarrow> int option \<Rightarrow> (exn + bool) \<times> state" where
  "v1_fallback w st text media reply =
     (let status_reply = map_option (\<lambda>i. (i, True)) reply;
          c = UpdateStatus text media status_reply
      in case update_status w (clock st) text media status_reply of
           None \<Rightarrow>
             (Inr True, emit (Log INFO ''Posted via v1.1 fallback'') (emit (Call c True) st))
         | Some v1_err \<Rightarrow>
             (Inr False, emit (Log ERROR ''v1.1 fallback failed'') (emit (Call c False) st)))"

text \<open>
  Lines 88 to 92 and 108 to 113: an optional argument becomes a keyword argument only
  when it is truthy.
\<close>

definition media_kwarg :: "pystr list option \<Rightarrow> pystr list option" where
  "media_kwarg media_ids = (if truthy_media media_ids then media_ids else None)"

definition reply_kwarg :: "int option \<Rightarrow> int option" where
  "reply_kwarg in_reply_to_tweet_id =
     (if truthy_id in_reply_to_tweet_id then in_reply_to_tweet_id else None)"

text \<open>
  Lines 71 to 121.  The first \<open>except\<close> names \<open>tweepy.TweepyException\<close>: an exception of
  another class raised by \<open>client.create_tweet\<close> leaves the function.
\<close>

definition safe_post_tweet ::
  "world \<Rightarrow> state \<Rightarrow> pystr \<Rightarrow> pystr list option \<Rightarrow> int option \<Rightarrow> (exn + bool) \<times> state" where
  "safe_post_tweet w st original_text media_ids in_reply_to_tweet_id =
     (let text = truncate_text original_text in_reply_to_tweet_id;
          media = media_kwarg media_ids;
          reply = reply_kwarg in_reply_to_tweet_id;
          c = CreateTweet text media reply
      in case create_tweet w (clock st) text media reply of
           None \<Rightarrow> (Inr True, emit (Log INFO ''Posted via v2'') (emit (Call c True) st))
         | Some e \<Rightarrow>
             (let st1 = emit (Call c False) st
              in if exn_class e = TweepyException then
                   (if quota_error (exn_str e)
                    then v1_fallback w
                           (emit (Log WARNING ''v2 blocked (402 CreditsDepleted)'') st1)
                           text media reply
                    else (Inr False, emit (Log ERROR ''v2 failed (other error)'') st1))
                 else (Inl e, st1)))"

text \<open>
  The world's answer to the v2 call of \<open>safe_post_tweet\<close>, and its answer to the v1.1 call
  when that is made (two events later: the failed call and the warning).  A failure of
  the v2 call is a quota failure when it passes the tests of lines 98 and 100.
\<close>

definition v2_result ::
  "world \<Rightarrow> state \<Rightarrow> pystr \<Rightarrow> pystr list option \<Rightarrow> int option \<Rightarrow> exn option" where
  "v2_result w st x ms rid =
     create_tweet w (clock st) (truncate_text x rid) (media_kwarg ms) (reply_kwarg rid)"

definition v1_result ::
  "world \<Rightarrow> state \<Rightarrow> pystr \<Rightarrow> pystr list option \<Rightarrow> int option \<Rightarrow> exn option" where
  "v1_result w st x ms rid =
     update_status w (clock st + 2) (truncate_text x rid) (media_kwarg ms)
       (map_option (\<lambda>i. (i, True)) (reply_kwarg rid))"

definition quota_failure :: "exn option \<Rightarrow> bool" where
  "quota_failure r =
     (case r of None \<Rightarrow> False
      | Some e \<Rightarrow> exn_class e = TweepyException \<and> quota_error (exn_str e))"

text \<open>Reading a trace: the texts handed to either API surface, and the posts that went out.\<close>

definition call_text :: "api_call \<Rightarrow> pystr option" where
  "call_text c =
     (case c of CreateTweet t m r \<Rightarrow> Some t | UpdateStatus t m r \<Rightarrow> Some t | _ \<Rightarrow> None)"

definition event_text :: "event \<Rightarrow> pystr option" where
  "event_text e = (case e of Call c ok \<Rightarrow> call_text c | Log l s \<Rightarrow> None)"

definition posted_texts :: "event list \<Rightarrow> pystr list" where
  "posted_texts es = List.map_filter event_text es"

definition is_v2_attempt :: "event \<Rightarrow> bool" where
  "is_v2_attempt e = (case e of Call (CreateTweet t m r) ok \<Rightarrow> True | _ \<Rightarrow> False)"

definition is_v1_attempt :: "event \<Rightarrow> bool" where
  "is_v1_attempt e = (case e of Call (UpdateStatus t m r) ok \<Rightarrow> True | _ \<Rightarrow> False)"

definition is_post :: "event \<Rightarrow> bool" where
  "is_post e = (case e of Call c ok \<Rightarrow> ok \<and> call_text c \<noteq> None | Log l s \<Rightarrow> False)"

definition v2_attempts :: "event list \<Rightarrow> nat" where
  "v2_attempts es = length (filter is_v2_attempt es)"

definition v1_attempts :: "event list \<Rightarrow> nat" where
  "v1_attempts es = length (filter is_v1_attempt es)"

definition posts_submitted :: "event list \<Rightarrow> nat" where
  "posts_submitted es = length (filter is_post es)"

definition ends_with_ellipsis :: "pystr \<Rightarrow> bool" where
  "ends_with_ellipsis t = (py_endswith t (ascii ''...'') \<or> py_endswith t [ELLIPSIS])"

section \<open>post_update\<close>

text \<open>
  Lines 248 to 251: the text that \<open>post_update\<close> hands to \<open>safe_post_tweet\<close>.  Code
  point 32 is the space and 10 the newline.
\<close>

definition update_text :: "pystr \<Rightarrow> pystr \<Rightarrow> pystr" where
  "update_text personality_tag text =
     (let full_text = [GAMEPAD, 32] @ BOT_NAME @ ascii '' UPDATE '' @ [GAMEPAD, 10, 10] @ text
                      @ [10, 10] @ personality_tag @ [10, 10] @ GAME_LINK
      in if length full_text > TWITTER_CHAR_LIMIT then
           (let max_text_length = TWITTER_CHAR_LIMIT - length ([GAMEPAD, 32, 10, 10] @ GAME_LINK)
            in [GAMEPAD, 32] @ take max_text_length text @ [10, 10] @ GAME_LINK)
         else full_text)"

text \<open>Lines 246 to 255.  \<open>safe_post_tweet\<close> is called outside any \<open>try\<close>.\<close>

definition post_update :: "world \<Rightarrow> state \<Rightarrow> pystr \<Rightarrow> (exn + unit) \<times> state" where
  "post_update w st text =
     (let personality_tag = get_personality_line w (clock st);
          full_text = update_text personality_tag text
      in case safe_post_tweet w st full_text None None of
           (Inl e, st') \<Rightarrow> (Inl e, st')
         | (Inr posted, st') \<Rightarrow>
             (Inr (), emit (if posted then Log INFO ''Update posted''
                            else Log ERROR ''Update post failed'') st'))"

section \<open>The event bridge and the webhook\<close>

text \<open>
  \<open>event.get("type")\<close>: a dict answers with the value or \<open>None\<close>; any other JSON value has
  no \<open>get\<close> and raises AttributeError.
\<close>

definition event_get :: "json \<Rightarrow> pystr \<Rightarrow> exn + json" where
  "event_get event key =
     (case event of
        JObj kvs \<Rightarrow> Inr (case map_of kvs key of None \<Rightarrow> JNull | Some v \<Rightarrow> v)
      | _ \<Rightarrow> Inl (Exn OtherException (ascii ''AttributeError'')))"

text \<open>Lines 236 to 241: the chain of comparisons of \<open>etype\<close> with the six type names.\<close>

definition dispatch :: "json \<Rightarrow> handler option" where
  "dispatch etype =
     (if etype = JStr (ascii ''win'') then Some Win
      else if etype = JStr (ascii ''game_start'') then Some GameStart
      else if etype = JStr (ascii ''tournament'') then Some Tournament
      else if etype = JStr (ascii ''achievement'') then Some Achievement
      else if etype = JStr (ascii ''challenge'') then Some Challenge
      else if etype = JStr (ascii ''leaderboard'') then Some Leaderboard
      else None)"

text \<open>Lines 235 to 242: the body of the \<open>try\<close>.\<close>

definition bridge_body :: "world \<Rightarrow> state \<Rightarrow> json \<Rightarrow> (exn + unit) \<times> state" where
  "bridge_body w st event =
     (case event_get event (ascii ''type'') of
        Inl e \<Rightarrow> (Inl e, st)
      | Inr etype \<Rightarrow>
          (case dispatch etype of
             None \<Rightarrow> (Inr (), emit (Log INFO ''Bot processed event'') st)
           | Some h \<Rightarrow>
               (case handle_event w h event st of
                  (Inl e, st') \<Rightarrow> (Inl e, st')
                | (Inr u, st') \<Rightarrow> (Inr (), emit (Log INFO ''Bot processed event'') st'))))"

text \<open>Lines 233 to 244: \<open>except Exception\<close> turns every failure into a log record.\<close>

definition game_event_bridge :: "world \<Rightarrow> state \<Rightarrow> json \<Rightarrow> state" where
  "game_event_bridge w st event =
     (case bridge_body w st event of
        (Inl e, st') \<Rightarrow> emit (Log ERROR ''Event bridge error'') st'
      | (Inr u, st') \<Rightarrow> st')"

text \<open>
  Lines 128 to 134.  The argument is the value of \<open>request.json\<close> (\<open>JNull\<close> when it is
  \<open>None\<close>); the result is the HTTP status with the response body.  What Flask itself
  answers when it refuses a request before the attribute yields a value is not part of
  this function.
\<close>

definition game_event :: "world \<Rightarrow> state \<Rightarrow> json \<Rightarrow> (nat \<times> json) \<times> state" where
  "game_event w st request_json =
     (if \<not> py_truthy request_json then
        ((400, JObj [(ascii ''error'', JStr (ascii ''Invalid request: JSON body required''))]), st)
      else ((200, JObj [(ascii ''ok'', JBool True)]), game_event_bridge w st request_json))"

text \<open>The six type names that lines 236 to 241 compare with.\<close>

definition known_types :: "pystr list" where
  "known_types = map ascii [''win'', ''game_start'', ''tournament'', ''achievement'',
     ''challenge'', ''leaderboard'']"

section \<open>The dedup file\<close>

definition PROCESSED_MENTIONS_FILE :: pystr where
  "PROCESSED_MENTIONS_FILE = ascii ''9dttt_processed_mentions.json''"

text \<open>
  A Python \<open>set\<close> is kept as the list of its members, without repetition.  Membership
  uses Python's \<open>==\<close>, for which \<open>True == 1\<close> and \<open>False == 0\<close>; lists and dicts are not
  hashable and cannot be members.
\<close>

definition py_eq :: "json \<Rightarrow> json \<Rightarrow> bool" where
  "py_eq x y =
     (case (x, y) of
        (JBool b, JNum n) \<Rightarrow> n = (if b then 1 else 0)
      | (JNum n, JBool b) \<Rightarrow> n = (if b then 1 else 0)
      | _ \<Rightarrow> x = y)"

definition hashable :: "json \<Rightarrow> bool" where
  "hashable v = (case v of JArr xs \<Rightarrow> False | JObj kvs \<Rightarrow> False | _ \<Rightarrow> True)"

definition py_member :: "json \<Rightarrow> json list \<Rightarrow> bool" where
  "py_member x xs = list_ex (py_eq x) xs"

definition py_add :: "json \<Rightarrow> json list \<Rightarrow> json list" where
  "py_add x xs = (if py_member x xs then xs else xs @ [x])"

definition py_set_of :: "json list \<Rightarrow> json list" where
  "py_set_of xs = foldl (\<lambda>acc x. py_add x acc) [] xs"

text \<open>\<open>set(v)\<close> for a loaded JSON value \<open>v\<close>: its items, its keys or its characters.\<close>

definition py_set :: "json \<Rightarrow> exn + json list" where
  "py_set v =
     (case v of
        JArr xs \<Rightarrow>
          if list_all hashable xs then Inr (py_set_of xs)
          else Inl (Exn OtherException (ascii ''TypeError: unhashable type''))
      | JObj kvs \<Rightarrow> Inr (py_set_of (map (\<lambda>kv. JStr (fst kv)) kvs))
      | JStr s \<Rightarrow> Inr (py_set_of (map (\<lambda>c. JStr [c]) s))
      | _ \<Rightarrow> Inl (Exn OtherException (ascii ''TypeError: object is not iterable'')))"

text \<open>Lines 142 to 146.\<close>

definition load_json_set :: "state \<Rightarrow> pystr \<Rightarrow> exn + json list" where
  "load_json_set st filename =
     (case files st filename of
        None \<Rightarrow> Inr []
      | Some Unparseable \<Rightarrow> Inl (Exn OtherException (ascii ''JSONDecodeError''))
      | Some (Doc v) \<Rightarrow> py_set v)"

text \<open>The exception that a fault of the file system raises, and the files it leaves.\<close>

definition fault_exn :: "write_fault \<Rightarrow> exn" where
  "fault_exn fault = (case fault of OpenFails e \<Rightarrow> e | DumpFails e \<Rightarrow> e)"

definition disk_after ::
  "write_fault \<Rightarrow> pystr \<Rightarrow> (pystr \<Rightarrow> file_data option) \<Rightarrow> (pystr \<Rightarrow> file_data option)" where
  "disk_after fault filename disk =
     (case fault of OpenFails e \<Rightarrow> disk | DumpFails e \<Rightarrow> disk(filename \<mapsto> Unparseable))"

text \<open>
  Lines 148 to 153.  \<open>except (IOError, OSError)\<close> catches the class \<open>OSError\<close> only.  A
  failure of \<open>open\<close> leaves the file as it was; a failure of \<open>json.dump\<close> comes after
  \<open>open(filename, 'w')\<close> has emptied the file.
\<close>

definition save_json_set :: "world \<Rightarrow> state \<Rightarrow> json list \<Rightarrow> pystr \<Rightarrow> (exn + unit) \<times> state" where
  "save_json_set w st data filename =
     (case file_write w (clock st) filename of
        None \<Rightarrow>
          (Inr (), (emit (Call (WriteFile filename data) True) st)
                     \<lparr>files := (files st)(filename \<mapsto> Doc (JArr data))\<rparr>)
      | Some fault \<Rightarrow>
          (let st1 = (emit (Call (WriteFile filename data) False) st)
                       \<lparr>files := disk_after fault filename (files st)\<rparr>
           in if exn_class (fault_exn fault) = OSError
              then (Inr (), emit (Log ERROR ''Failed to save'') st1)
              else (Inl (fault_exn fault), st1)))"

section \<open>bot_respond\<close>

text \<open>\<open>str(n)\<close> for an integer: its decimal digits, with a minus sign when negative.\<close>

fun str_nat :: "nat \<Rightarrow> pystr" where
  "str_nat n = (if n < 10 then [48 + n] else str_nat (n div 10) @ [48 + n mod 10])"

declare str_nat.simps [simp del]

definition py_str :: "int \<Rightarrow> pystr" where
  "py_str i = (if i < 0 then 45 # str_nat (nat (- i)) else str_nat (nat i))"

text \<open>Line 287: \<open>str(mention.id) in processed\<close>.\<close>

definition seen :: "json list \<Rightarrow> mention \<Rightarrow> bool" where
  "seen processed m = py_member (JStr (py_str (mention_id m))) processed"

text \<open>
  Lines 287 to 301: the body of the loop, for one mention.  \<open>Inl\<close> is an exception on its
  way to the \<open>except\<close> of line 303; \<open>Inr\<close> carries the set \<open>processed\<close> into the next
  iteration.  The text handed to \<open>generate_contextual_response\<close> is computed from the
  mention's text and the bot's user name by \<open>replace\<close>, \<open>strip\<close> and \<open>lower\<close>; the world's
  function receives both and stands for that computation followed by the call.
\<close>

definition respond_to_mention ::
  "world \<Rightarrow> pystr \<Rightarrow> json list \<Rightarrow> state \<Rightarrow> mention \<Rightarrow> (exn + json list) \<times> state" where
  "respond_to_mention w me_username processed st m =
     (if seen processed m then (Inr processed, st)
      else
        (case get_user w (clock st) (author_id m) of
           Inl e \<Rightarrow> (Inl e, emit (Call (GetUser (author_id m)) False) st)
         | Inr None \<Rightarrow> (Inr processed, emit (Call (GetUser (author_id m)) True) st)
         | Inr (Some username) \<Rightarrow>
             (let st1 = emit (Call (GetUser (author_id m)) True) st;
                  c = GenerateResponse username me_username (mention_text m)
              in case generate_contextual_response w (clock st1) username me_username
                        (mention_text m) of
                   Inl e \<Rightarrow> (Inl e, emit (Call c False) st1)
                 | Inr response \<Rightarrow>
                     (case safe_post_tweet w (emit (Call c True) st1) response None
                             (Some (mention_id m)) of
                        (Inl e, st2) \<Rightarrow> (Inl e, st2)
                      | (Inr False, st2) \<Rightarrow> (Inr processed, emit (Log ERROR ''Reply failed'') st2)
                      | (Inr True, st2) \<Rightarrow>
                          (case like w (clock st2) (mention_id m) of
                             Some e \<Rightarrow> (Inl e, emit (Call (Like (mention_id m)) False) st2)
                           | None \<Rightarrow>
                               (Inr (py_add (JStr (py_str (mention_id m))) processed),
                                emit (Log INFO ''Replied'')
                                  (emit (Call (Like (mention_id m)) True) st2)))))))"

text \<open>Line 286: the \<open>for\<close> loop, left at the first exception.\<close>

fun respond_loop ::
  "world \<Rightarrow> pystr \<Rightarrow> json list \<Rightarrow> state \<Rightarrow> mention list \<Rightarrow> (exn + json list) \<times> state" where
  "respond_loop w me_username processed st [] = (Inr processed, st)"
| "respond_loop w me_username processed st (m # ms) =
     (case respond_to_mention w me_username processed st m of
        (Inl e, st') \<Rightarrow> (Inl e, st')
      | (Inr processed', st') \<Rightarrow> respond_loop w me_username processed' st' ms)"

text \<open>
  \<open>bot_respond\<close> returns \<open>None\<close> on every path; the model returns which path was taken.
\<close>

datatype cycle_end = NoSelf | NoMentions | Completed | Caught exn

text \<open>Lines 280 to 302: the body of the \<open>try\<close>.\<close>

definition respond_try :: "world \<Rightarrow> state \<Rightarrow> json list \<Rightarrow> (exn + cycle_end) \<times> state" where
  "respond_try w st processed =
     (case get_me w (clock st) of
        Inl e \<Rightarrow> (Inl e, emit (Call GetMe False) st)
      | Inr None \<Rightarrow> (Inr NoSelf, emit (Call GetMe True) st)
      | Inr (Some (my_id, my_username)) \<Rightarrow>
          (let st1 = emit (Call GetMe True) st
           in case get_users_mentions w (clock st1) my_id of
                Inl e \<Rightarrow> (Inl e, emit (Call (GetUsersMentions my_id) False) st1)
              | Inr None \<Rightarrow> (Inr NoMentions, emit (Call (GetUsersMentions my_id) True) st1)
              | Inr (Some []) \<Rightarrow> (Inr NoMentions, emit (Call (GetUsersMentions my_id) True) st1)
              | Inr (Some (m # ms)) \<Rightarrow>
                  (case respond_loop w my_username processed
                          (emit (Call (GetUsersMentions my_id) True) st1) (m # ms) of
                     (Inl e, st2) \<Rightarrow> (Inl e, st2)
                   | (Inr processed', st2) \<Rightarrow>
                       (case save_json_set w st2 processed' PROCESSED_MENTIONS_FILE of
                          (Inl e, st3) \<Rightarrow> (Inl e, st3)
                        | (Inr u, st3) \<Rightarrow> (Inr Completed, st3)))))"

text \<open>
  Lines 277 to 304.  \<open>load_json_set\<close> is called before the \<open>try\<close>: its exception leaves
  \<open>bot_respond\<close>; every exception of the body is caught and logged.
\<close>

definition bot_respond :: "world \<Rightarrow> state \<Rightarrow> (exn + cycle_end) \<times> state" where
  "bot_respond w st =
     (case load_json_set st PROCESSED_MENTIONS_FILE of
        Inl e \<Rightarrow> (Inl e, st)
      | Inr processed \<Rightarrow>
          (case respond_try w st processed of
             (Inl e, st') \<Rightarrow> (Inr (Caught e), emit (Log ERROR ''Mentions processing error'') st')
           | (Inr c, st') \<Rightarrow> (Inr c, st')))"

section \<open>Reading the trace of a cycle\<close>

text \<open>
  \<open>adds P st st'\<close>: the trace of \<open>st'\<close> is the trace of \<open>st\<close> followed by events that all
  satisfy \<open>P\<close>.
\<close>

definition adds :: "(event \<Rightarrow> bool) \<Rightarrow> state \<Rightarrow> state \<Rightarrow> bool" where
  "adds P st st' \<longleftrightarrow> (\<exists>es. trace st' = trace st @ es \<and> list_all P es)"

text \<open>The state in which the reply to a mention is posted, and the outcome of that post.\<close>

definition after_lookup :: "state \<Rightarrow> mention \<Rightarrow> state" where
  "after_lookup st m = emit (Call (GetUser (author_id m)) True) st"

definition after_generate :: "state \<Rightarrow> mention \<Rightarrow> pystr \<Rightarrow> pystr \<Rightarrow> state" where
  "after_generate st m username me_username =
     emit (Call (GenerateResponse username me_username (mention_text m)) True) (after_lookup st m)"

definition reply_result ::
  "world \<Rightarrow> state \<Rightarrow> mention \<Rightarrow> pystr \<Rightarrow> pystr \<Rightarrow> pystr \<Rightarrow> (exn + bool) \<times> state" where
  "reply_result w st m username me_username response =
     safe_post_tweet w (after_generate st m username me_username) response None
       (Some (mention_id m))"

text \<open>An event that replies to the mention \<open>i\<close> or likes it.\<close>

definition touches :: "int \<Rightarrow> event \<Rightarrow> bool" where
  "touches i e =
     (case e of
        Call (CreateTweet t m r) ok \<Rightarrow> r = Some i
      | Call (UpdateStatus t m r) ok \<Rightarrow> map_option fst r = Some i
      | Call (Like j) ok \<Rightarrow> j = i
      | _ \<Rightarrow> False)"

text \<open>An attempt to write a file, and the identifier that a successful like marks.\<close>

definition is_write :: "event \<Rightarrow> bool" where
  "is_write e = (case e of Call (WriteFile f d) ok \<Rightarrow> True | _ \<Rightarrow> False)"

definition mark :: "event \<Rightarrow> json option" where
  "mark e = (case e of Call (Like i) True \<Rightarrow> Some (JStr (py_str i)) | _ \<Rightarrow> None)"

definition marks :: "event list \<Rightarrow> json list" where
  "marks es = List.map_filter mark es"

text \<open>Every fault of the file system is an \<open>OSError\<close>, as the faults of \<open>open\<close> and \<open>write\<close> are.\<close>

definition os_faults :: "world \<Rightarrow> bool" where
  "os_faults w \<longleftrightarrow>
     (\<forall>n f fault. file_write w n f = Some fault \<longrightarrow> exn_class (fault_exn fault) = OSError)"

text \<open>
  \<open>allows P me m\<close>: the property \<open>P\<close> holds of every event that the loop body can add for
  the mention \<open>m\<close>.
\<close>

definition allows :: "(event \<Rightarrow> bool) \<Rightarrow> pystr \<Rightarrow> mention \<Rightarrow> bool" where
  "allows P me m \<longleftrightarrow>
     (\<forall>ok. P (Call (GetUser (author_id m)) ok))
     \<and> (\<forall>u t ok. P (Call (GenerateResponse u me t) ok))
     \<and> (\<forall>t ok. P (Call (CreateTweet t None (reply_kwarg (Some (mention_id m)))) ok))
     \<and> (\<forall>t ok. P (Call (UpdateStatus t None
                   (map_option (\<lambda>i. (i, True)) (reply_kwarg (Some (mention_id m))))) ok))
     \<and> (\<forall>ok. P (Call (Like (mention_id m)) ok))
     \<and> (\<forall>l s. P (Log l s))"

text \<open>The states after \<open>get_me\<close> and after \<open>get_users_mentions\<close> have answered.\<close>

definition after_me :: "state \<Rightarrow> state" where
  "after_me st = emit (Call GetMe True) st"

definition after_mentions :: "state \<Rightarrow> int \<Rightarrow> state" where
  "after_mentions st my_id = emit (Call (GetUsersMentions my_id) True) (after_me st)"

definition failed_write :: "event \<Rightarrow> bool" where
  "failed_write e = (case e of Call (WriteFile f d) ok \<Rightarrow> \<not> ok | _ \<Rightarrow> False)"

text \<open>
  The shape of a cycle that ended with \<open>c\<close> in the state \<open>st'\<close>, as far as the file goes:
  at most one write is attempted; a completed cycle attempted exactly one, as its last
  call, with the loaded identifiers and those marked in the cycle; without an attempt the
  files are as they were; and a cycle that did not complete attempted none, when every
  file fault is an \<open>OSError\<close>.
\<close>

definition persist_shape :: "world \<Rightarrow> state \<Rightarrow> exn + cycle_end \<Rightarrow> state \<Rightarrow> bool" where
  "persist_shape w st c st' \<longleftrightarrow>
     length (filter is_write (new_events st st')) \<le> 1
     \<and> (c = Inr Completed \<longrightarrow>
          (\<exists>es p ok loaded.
             new_events st st' =
               es @ Call (WriteFile PROCESSED_MENTIONS_FILE p) ok
                    # (if ok then [] else [Log ERROR ''Failed to save''])
             \<and> \<not> list_ex is_write es
             \<and> load_json_set st PROCESSED_MENTIONS_FILE = Inr loaded
             \<and> set p = set loaded \<union> set (marks es)
             \<and> (ok \<longrightarrow> files st' PROCESSED_MENTIONS_FILE = Some (Doc (JArr p)))))
     \<and> (\<not> list_ex is_write (new_events st st') \<longrightarrow> files st' = files st)
     \<and> (os_faults w \<longrightarrow> c \<noteq> Inr Completed \<longrightarrow> \<not> list_ex is_write (new_events st st'))"

section \<open>Worlds and states for the examples\<close>

text \<open>A world in which every call succeeds and nobody mentions the bot; the empty state.\<close>

definition calm_world :: world where
  "calm_world =
     \<lparr> create_tweet = (\<lambda>n t m r. None),
       update_status = (\<lambda>n t m r. None),
       get_me = (\<lambda>n. Inr (Some (1, ascii ''9dttt''))),
       get_users_mentions = (\<lambda>n i. Inr None),
       get_user = (\<lambda>n i. Inr (Some (ascii ''alice''))),
       like = (\<lambda>n i. None),
       generate_contextual_response = (\<lambda>n u me t. Inr (ascii ''Challenge accepted.'')),
       get_personality_line = (\<lambda>n. ascii ''Grid updated.''),
       file_write = (\<lambda>n f. None),
       handle_event = (\<lambda>h ev st. (Inr (), st)) \<rparr>"

definition state0 :: state where
  "state0 = \<lparr> trace = [], files = (\<lambda>f. None) \<rparr>"

text \<open>
  The state in which the dedup file holds \<open>["42"]\<close>, the one in which it holds
  \<open>["42", "43", "42"]\<close>, and two mentions.
\<close>

definition disk_42 :: state where
  "disk_42 =
     \<lparr> trace = [],
       files = [PROCESSED_MENTIONS_FILE \<mapsto> Doc (JArr [JStr (ascii ''42'')])] \<rparr>"

definition disk_repeats :: state where
  "disk_repeats =
     \<lparr> trace = [],
       files = [PROCESSED_MENTIONS_FILE \<mapsto>
                  Doc (JArr [JStr (ascii ''42''), JStr (ascii ''43''), JStr (ascii ''42'')])] \<rparr>"

definition mention_43 :: mention where
  "mention_43 = Mention 43 7 (ascii ''@9dttt play'')"

definition mention_44 :: mention where
  "mention_44 = Mention 44 8 (ascii ''@9dttt rematch'')"

text \<open>Worlds in which one thing goes wrong.\<close>

definition flaky_world :: world where
  "flaky_world =
     calm_world\<lparr> create_tweet := (\<lambda>n t m r. Some (Exn OtherException (ascii ''connection reset''))) \<rparr>"

definition forbidden_world :: world where
  "forbidden_world =
     calm_world\<lparr> create_tweet :=
       (\<lambda>n t m r. Some (Exn TweepyException (ascii ''403 Forbidden''))) \<rparr>"

definition raising_handlers :: world where
  "raising_handlers =
     calm_world\<lparr> handle_event := (\<lambda>h ev st. (Inl (Exn OtherException (ascii ''KeyError'')), st)) \<rparr>"

definition full_disk_world :: world where
  "full_disk_world =
     calm_world\<lparr> file_write :=
       (\<lambda>n f. Some (DumpFails (Exn OSError (ascii ''No space left on device'')))) \<rparr>"

definition read_only_world :: world where
  "read_only_world =
     calm_world\<lparr> file_write :=
       (\<lambda>n f. Some (OpenFails (Exn OSError (ascii ''Permission denied'')))) \<rparr>"

definition unknown_author_world :: world where
  "unknown_author_world =
     calm_world\<lparr> get_user := (\<lambda>n a. if a = 7 then Inr None else Inr (Some (ascii ''bob''))) \<rparr>"

text \<open>
  Worlds with a batch of two mentions, 42 and 43, or 43 and 44: all goes well, the disk
  is full, or an author lookup raises.
\<close>

definition busy_world :: world where
  "busy_world =
     calm_world\<lparr> get_users_mentions :=
       (\<lambda>n i. Inr (Some [Mention 42 7 (ascii ''@9dttt play''),
                           Mention 43 8 (ascii ''@9dttt rematch'')])) \<rparr>"

definition busy_full_disk_world :: world where
  "busy_full_disk_world =
     busy_world\<lparr> file_write :=
       (\<lambda>n f. Some (DumpFails (Exn OSError (ascii ''No space left on device'')))) \<rparr>"

definition second_lookup_raises_world :: world where
  "second_lookup_raises_world =
     calm_world\<lparr> get_users_mentions :=
         (\<lambda>n i. Inr (Some [Mention 43 7 (ascii ''@9dttt play''),
                             Mention 44 8 (ascii ''@9dttt rematch'')])),
       get_user :=
         (\<lambda>n a. if a = 8 then Inl (Exn TweepyException (ascii ''503 Service Unavailable''))
                 else Inr (Some (ascii ''alice''))) \<rparr>"

definition first_lookup_raises_world :: world where
  "first_lookup_raises_world =
     calm_world\<lparr> get_users_mentions :=
         (\<lambda>n i. Inr (Some [Mention 43 7 (ascii ''@9dttt play''),
                             Mention 44 8 (ascii ''@9dttt rematch'')])),
       get_user :=
         (\<lambda>n a. if a = 7 then Inl (Exn TweepyException (ascii ''503 Service Unavailable''))
                 else Inr (Some (ascii ''bob''))) \<rparr>"

section \<open>Facts about traces\<close>

lemma trace_emit: "trace (emit e st) = trace st @ [e]"
  by (simp add: emit_def)

lemma files_emit: "files (emit e st) = files st"
  by (simp add: emit_def)

lemma clock_emit: "clock (emit e st) = Suc (clock st)"
  by (simp add: emit_def clock_def)

lemma new_events_self: "new_events st st = []"
  by (simp add: new_events_def)

lemma new_events_emit:
  "length (trace st) \<le> length (trace st') \<Longrightarrow>
   new_events st (emit e st') = new_events st st' @ [e]"
  by (simp add: new_events_def emit_def)

lemma new_events_emit1: "new_events st (emit e st) = [e]"
  by (simp add: new_events_def emit_def)

lemma new_events_emit2: "new_events st (emit e2 (emit e1 st)) = [e1, e2]"
  by (simp add: new_events_def emit_def)

lemma new_events_emit3: "new_events st (emit e3 (emit e2 (emit e1 st))) = [e1, e2, e3]"
  by (simp add: new_events_def emit_def)

lemma new_events_emit4:
  "new_events st (emit e4 (emit e3 (emit e2 (emit e1 st)))) = [e1, e2, e3, e4]"
  by (simp add: new_events_def emit_def)

section \<open>safe_post_tweet, path by path\<close>

lemma v1_fallback_ok:
  "update_status w (clock st) t m (map_option (\<lambda>i. (i, True)) r) = None \<Longrightarrow>
   v1_fallback w st t m r =
     (Inr True, emit (Log INFO ''Posted via v1.1 fallback'')
        (emit (Call (UpdateStatus t m (map_option (\<lambda>i. (i, True)) r)) True) st))"
  by (simp add: v1_fallback_def)

lemma v1_fallback_fail:
  "update_status w (clock st) t m (map_option (\<lambda>i. (i, True)) r) = Some e1 \<Longrightarrow>
   v1_fallback w st t m r =
     (Inr False, emit (Log ERROR ''v1.1 fallback failed'')
        (emit (Call (UpdateStatus t m (map_option (\<lambda>i. (i, True)) r)) False) st))"
  by (simp add: v1_fallback_def)

lemma spt_v2_ok:
  "v2_result w st x ms rid = None \<Longrightarrow>
   safe_post_tweet w st x ms rid =
     (Inr True, emit (Log INFO ''Posted via v2'')
        (emit (Call (CreateTweet (truncate_text x rid) (media_kwarg ms) (reply_kwarg rid)) True) st))"
  by (simp add: safe_post_tweet_def v2_result_def Let_def)

lemma spt_raises:
  "v2_result w st x ms rid = Some e \<Longrightarrow> exn_class e \<noteq> TweepyException \<Longrightarrow>
   safe_post_tweet w st x ms rid =
     (Inl e, emit (Call (CreateTweet (truncate_text x rid) (media_kwarg ms) (reply_kwarg rid)) False) st)"
  by (simp add: safe_post_tweet_def v2_result_def Let_def)

lemma spt_other:
  "v2_result w st x ms rid = Some e \<Longrightarrow> exn_class e = TweepyException \<Longrightarrow>
   \<not> quota_error (exn_str e) \<Longrightarrow>
   safe_post_tweet w st x ms rid =
     (Inr False, emit (Log ERROR ''v2 failed (other error)'')
        (emit (Call (CreateTweet (truncate_text x rid) (media_kwarg ms) (reply_kwarg rid)) False) st))"
  by (simp add: safe_post_tweet_def v2_result_def Let_def)

lemma spt_quota:
  "v2_result w st x ms rid = Some e \<Longrightarrow> exn_class e = TweepyException \<Longrightarrow>
   quota_error (exn_str e) \<Longrightarrow>
   safe_post_tweet w st x ms rid =
     v1_fallback w
       (emit (Log WARNING ''v2 blocked (402 CreditsDepleted)'')
          (emit (Call (CreateTweet (truncate_text x rid) (media_kwarg ms) (reply_kwarg rid)) False) st))
       (truncate_text x rid) (media_kwarg ms) (reply_kwarg rid)"
  by (simp add: safe_post_tweet_def v2_result_def Let_def)

lemmas ne_simps = new_events_emit1 new_events_emit2 new_events_emit3 new_events_emit4

lemma is_v2_simps:
  "is_v2_attempt (Call (CreateTweet t m r) ok)"
  "\<not> is_v2_attempt (Call (UpdateStatus t m r') ok)"
  "\<not> is_v2_attempt (Log l s)"
  by (simp_all add: is_v2_attempt_def)

lemma is_v1_simps:
  "\<not> is_v1_attempt (Call (CreateTweet t m r) ok)"
  "is_v1_attempt (Call (UpdateStatus t m r') ok)"
  "\<not> is_v1_attempt (Log l s)"
  by (simp_all add: is_v1_attempt_def)

lemma is_post_simps:
  "is_post (Call (CreateTweet t m r) ok) = ok"
  "is_post (Call (UpdateStatus t m r') ok) = ok"
  "\<not> is_post (Log l s)"
  by (simp_all add: is_post_def call_text_def)

lemma spt_cases:
  obtains
    (v2_ok) "v2_result w st x ms rid = None"
  | (raises) e where "v2_result w st x ms rid = Some e" "exn_class e \<noteq> TweepyException"
  | (other) e where "v2_result w st x ms rid = Some e" "exn_class e = TweepyException"
      "\<not> quota_error (exn_str e)"
  | (quota_ok) e where "v2_result w st x ms rid = Some e" "exn_class e = TweepyException"
      "quota_error (exn_str e)" "v1_result w st x ms rid = None"
  | (quota_fail) e e1 where "v2_result w st x ms rid = Some e" "exn_class e = TweepyException"
      "quota_error (exn_str e)" "v1_result w st x ms rid = Some e1"
  by (cases "v2_result w st x ms rid"; cases "v1_result w st x ms rid") auto

lemma spt_quota_ok:
  assumes "v2_result w st x ms rid = Some e" "exn_class e = TweepyException"
    "quota_error (exn_str e)" "v1_result w st x ms rid = None"
  shows "safe_post_tweet w st x ms rid =
     (Inr True, emit (Log INFO ''Posted via v1.1 fallback'')
        (emit (Call (UpdateStatus (truncate_text x rid) (media_kwarg ms)
                 (map_option (\<lambda>i. (i, True)) (reply_kwarg rid))) True)
        (emit (Log WARNING ''v2 blocked (402 CreditsDepleted)'')
          (emit (Call (CreateTweet (truncate_text x rid) (media_kwarg ms) (reply_kwarg rid)) False) st))))"
  using assms(4) by (simp add: spt_quota[OF assms(1-3)] v1_fallback_ok v1_result_def clock_emit)

lemma spt_quota_fail:
  assumes "v2_result w st x ms rid = Some e" "exn_class e = TweepyException"
    "quota_error (exn_str e)" "v1_result w st x ms rid = Some e1"
  shows "safe_post_tweet w st x ms rid =
     (Inr False, emit (Log ERROR ''v1.1 fallback failed'')
        (emit (Call (UpdateStatus (truncate_text x rid) (media_kwarg ms)
                 (map_option (\<lambda>i. (i, True)) (reply_kwarg rid))) False)
        (emit (Log WARNING ''v2 blocked (402 CreditsDepleted)'')
          (emit (Call (CreateTweet (truncate_text x rid) (media_kwarg ms) (reply_kwarg rid)) False) st))))"
  using assms(4) by (simp add: spt_quota[OF assms(1-3)] v1_fallback_fail v1_result_def clock_emit)

text \<open>
  Claim C1, as the code has it.  Every call makes exactly one v2 attempt.  A v1.1 attempt
  is made exactly when the v2 attempt raised a \<open>TweepyException\<close> whose lower-cased text
  contains \<open>402\<close>, \<open>creditsdepleted\<close> or \<open>payment required\<close>, and then exactly one.  At most
  one post goes out, and one does exactly when the result is \<open>True\<close>.  A \<open>TweepyException\<close>
  with another text, or any failure of the fallback, gives \<open>False\<close>; an exception of
  another class raised by the v2 call is not caught and leaves the function.
\<close>

theorem safe_post_tweet_fallback:
  "v2_attempts (new_events st (snd (safe_post_tweet w st x ms rid))) = 1
   \<and> v1_attempts (new_events st (snd (safe_post_tweet w st x ms rid))) =
       (if quota_failure (v2_result w st x ms rid) then 1 else 0)
   \<and> posts_submitted (new_events st (snd (safe_post_tweet w st x ms rid))) =
       (if fst (safe_post_tweet w st x ms rid) = Inr True then 1 else 0)
   \<and> fst (safe_post_tweet w st x ms rid) =
       (case v2_result w st x ms rid of
          None \<Rightarrow> Inr True
        | Some e \<Rightarrow>
            if exn_class e = TweepyException then
              (if quota_error (exn_str e) then
                 (case v1_result w st x ms rid of None \<Rightarrow> Inr True | Some e1 \<Rightarrow> Inr False)
               else Inr False)
            else Inl e)"
proof (cases rule: spt_cases[of w st x ms rid])
  case v2_ok
  then show ?thesis
    by (simp add: spt_v2_ok ne_simps v2_attempts_def v1_attempts_def posts_submitted_def
        is_v2_simps is_v1_simps is_post_simps quota_failure_def)
next
  case (raises e)
  then show ?thesis
    by (simp add: spt_raises ne_simps v2_attempts_def v1_attempts_def posts_submitted_def
        is_v2_simps is_v1_simps is_post_simps quota_failure_def)
next
  case (other e)
  then show ?thesis
    by (simp add: spt_other ne_simps v2_attempts_def v1_attempts_def posts_submitted_def
        is_v2_simps is_v1_simps is_post_simps quota_failure_def)
next
  case (quota_ok e)
  then show ?thesis
    by (simp add: spt_quota_ok ne_simps v2_attempts_def v1_attempts_def posts_submitted_def
        is_v2_simps is_v1_simps is_post_simps quota_failure_def)
next
  case (quota_fail e e1)
  then show ?thesis
    by (simp add: spt_quota_fail ne_simps v2_attempts_def v1_attempts_def posts_submitted_def
        is_v2_simps is_v1_simps is_post_simps quota_failure_def)
qed

lemma posted_texts_simps:
  "posted_texts [] = []"
  "posted_texts (Call (CreateTweet t m r) ok # es) = t # posted_texts es"
  "posted_texts (Call (UpdateStatus t m r') ok # es) = t # posted_texts es"
  "posted_texts (Log l s # es) = posted_texts es"
  by (simp_all add: posted_texts_def List.map_filter_def event_text_def call_text_def)

lemma truncate_text_length:
  "length (truncate_text text rid) \<le> max (length text) 261"
  by (simp add: truncate_text_def TWITTER_CHAR_LIMIT_def ascii_def)

lemma truncate_text_long:
  assumes "TWITTER_CHAR_LIMIT < length text"
  shows "length (truncate_text text rid) \<le> TWITTER_CHAR_LIMIT"
    and "ends_with_ellipsis (truncate_text text rid)"
    and "truncate_text text rid =
          (if truthy_id rid then take (TWITTER_CHAR_LIMIT - 60) text @ ascii ''...''
           else take (TWITTER_CHAR_LIMIT - 20) text @ [ELLIPSIS])"
  using assms
  by (simp_all add: truncate_text_def TWITTER_CHAR_LIMIT_def ascii_def ends_with_ellipsis_def
      py_endswith_def)

lemma spt_posted_texts:
  "set (posted_texts (new_events st (snd (safe_post_tweet w st x ms rid)))) =
     {truncate_text x rid}"
proof (cases rule: spt_cases[of w st x ms rid])
  case v2_ok
  then show ?thesis by (simp add: spt_v2_ok ne_simps posted_texts_simps)
next
  case (raises e)
  then show ?thesis by (simp add: spt_raises ne_simps posted_texts_simps)
next
  case (other e)
  then show ?thesis by (simp add: spt_other ne_simps posted_texts_simps)
next
  case (quota_ok e)
  then show ?thesis by (simp add: spt_quota_ok ne_simps posted_texts_simps)
next
  case (quota_fail e e1)
  then show ?thesis by (simp add: spt_quota_fail ne_simps posted_texts_simps)
qed

text \<open>
  Claim C3.  For a text longer than \<open>TWITTER_CHAR_LIMIT\<close>, every text handed to either API
  surface is the truncated one; it is at most 280 characters long and ends with an
  ellipsis marker; with a reply identifier (one that the test \<open>if in_reply_to_tweet_id\<close>
  accepts) it is the first 220 characters and three dots, otherwise the first 260
  characters and the one-character ellipsis.
\<close>

theorem safe_post_tweet_truncates:
  assumes "TWITTER_CHAR_LIMIT < length text"
  shows "set (posted_texts (new_events st (snd (safe_post_tweet w st text ms rid)))) =
           {truncate_text text rid}
         \<and> length (truncate_text text rid) \<le> TWITTER_CHAR_LIMIT
         \<and> ends_with_ellipsis (truncate_text text rid)
         \<and> truncate_text text rid =
             (if truthy_id rid then take (TWITTER_CHAR_LIMIT - 60) text @ ascii ''...''
              else take (TWITTER_CHAR_LIMIT - 20) text @ [ELLIPSIS])"
  using truncate_text_long[OF assms, of rid] spt_posted_texts[of st w "text" ms rid] by simp

text \<open>
  The theorem at a text of 300 characters, as a reply to the mention 42 and as a post of
  its own.
\<close>

theorem safe_post_tweet_truncates_witness:
  "TWITTER_CHAR_LIMIT < length (replicate 300 (97::nat))
   \<and> set (posted_texts (new_events state0
          (snd (safe_post_tweet calm_world state0 (replicate 300 97) None (Some 42))))) =
       {replicate 220 97 @ [46, 46, 46]}
   \<and> length (replicate 220 (97::nat) @ [46, 46, 46]) = 223
   \<and> set (posted_texts (new_events state0
          (snd (safe_post_tweet calm_world state0 (replicate 300 97) None None)))) =
       {replicate 260 97 @ [8230]}"
  using safe_post_tweet_truncates[of "replicate 300 97" state0 calm_world None "Some 42"]
    safe_post_tweet_truncates[of "replicate 300 97" state0 calm_world None None]
  by (simp add: TWITTER_CHAR_LIMIT_def truncate_text_def ascii_def ELLIPSIS_def)

text \<open>
  Claim C1 as stated fails: a v2 failure that is not a quota error, here a connection
  error that is not a \<open>TweepyException\<close>, does not make \<open>safe_post_tweet\<close> return
  \<open>False\<close>; the exception leaves the function.
\<close>

theorem safe_post_tweet_raises_counterexample:
  "create_tweet flaky_world (clock state0) (ascii ''hi'') None None =
      Some (Exn OtherException (ascii ''connection reset''))
   \<and> \<not> quota_error (ascii ''connection reset'')
   \<and> fst (safe_post_tweet flaky_world state0 (ascii ''hi'') None None) =
       Inl (Exn OtherException (ascii ''connection reset''))
   \<and> fst (safe_post_tweet flaky_world state0 (ascii ''hi'') None None) \<noteq> Inr False"
  by (simp add: safe_post_tweet_def flaky_world_def calm_world_def state0_def clock_def
      truncate_text_def TWITTER_CHAR_LIMIT_def media_kwarg_def reply_kwarg_def ascii_def
      quota_error_def py_lower_def lower_char_def Let_def)

lemma adds_refl: "adds P st st"
  by (simp add: adds_def)

lemma adds_emit: "adds P st st' \<Longrightarrow> P e \<Longrightarrow> adds P st (emit e st')"
  by (auto simp: adds_def emit_def)

lemma adds_trans: "adds P st st' \<Longrightarrow> adds P st' st'' \<Longrightarrow> adds P st st''"
  by (auto simp: adds_def)

lemma adds_files: "adds P st st' \<Longrightarrow> adds P st (st'\<lparr>files := d\<rparr>)"
  by (simp add: adds_def)

lemma adds_new_events:
  assumes "adds P st st'"
  shows "list_all P (new_events st st')" and "trace st' = trace st @ new_events st st'"
  using assms by (auto simp: adds_def new_events_def)

lemma new_events_trans:
  "adds P st st' \<Longrightarrow> adds Q st' st'' \<Longrightarrow>
   new_events st st'' = new_events st st' @ new_events st' st''"
  by (auto simp: adds_def new_events_def)

lemma adds_any: "adds P st st' \<Longrightarrow> adds (\<lambda>e. True) st st'"
  by (auto simp: adds_def list_all_iff)

lemma v1_fallback_adds:
  assumes "\<And>ok. P (Call (UpdateStatus t m (map_option (\<lambda>i. (i, True)) r)) ok)" "\<And>l s. P (Log l s)"
  shows "adds P st (snd (v1_fallback w st t m r))"
  by (cases "update_status w (clock st) t m (map_option (\<lambda>i. (i, True)) r)")
     (simp_all add: v1_fallback_ok v1_fallback_fail adds_emit adds_refl assms)

lemma spt_adds:
  assumes "\<And>ok. P (Call (CreateTweet (truncate_text x rid) (media_kwarg ms) (reply_kwarg rid)) ok)"
    "\<And>ok. P (Call (UpdateStatus (truncate_text x rid) (media_kwarg ms)
                (map_option (\<lambda>i. (i, True)) (reply_kwarg rid))) ok)"
    "\<And>l s. P (Log l s)"
  shows "adds P st (snd (safe_post_tweet w st x ms rid))"
proof (cases rule: spt_cases[of w st x ms rid])
  case v2_ok
  then show ?thesis by (simp add: spt_v2_ok adds_emit adds_refl assms)
next
  case (raises e)
  then show ?thesis by (simp add: spt_raises adds_emit adds_refl assms)
next
  case (other e)
  then show ?thesis by (simp add: spt_other adds_emit adds_refl assms)
next
  case (quota_ok e)
  then show ?thesis by (simp add: spt_quota_ok adds_emit adds_refl assms)
next
  case (quota_fail e e1)
  then show ?thesis by (simp add: spt_quota_fail adds_emit adds_refl assms)
qed

lemma spt_files: "files (snd (safe_post_tweet w st x ms rid)) = files st"
proof (cases rule: spt_cases[of w st x ms rid])
  case v2_ok
  then show ?thesis by (simp add: spt_v2_ok files_emit)
next
  case (raises e)
  then show ?thesis by (simp add: spt_raises files_emit)
next
  case (other e)
  then show ?thesis by (simp add: spt_other files_emit)
next
  case (quota_ok e)
  then show ?thesis by (simp add: spt_quota_ok files_emit)
next
  case (quota_fail e e1)
  then show ?thesis by (simp add: spt_quota_fail files_emit)
qed

lemma posted_texts_append: "posted_texts (xs @ ys) = posted_texts xs @ posted_texts ys"
  by (simp add: posted_texts_def List.map_filter_def)

section \<open>post_update\<close>

lemma GAME_LINK_length: "length GAME_LINK = 21"
  by (simp add: GAME_LINK_def ascii_def)

lemma py_endswith_append: "py_endswith (xs @ suf) suf"
  by (simp add: py_endswith_def)

lemma update_text_endswith: "py_endswith (update_text tag text) GAME_LINK"
proof -
  have "\<exists>pre. update_text tag text = pre @ GAME_LINK"
    by (simp add: update_text_def Let_def)
  then show ?thesis
    using py_endswith_append by auto
qed

lemma update_text_length: "length (update_text tag text) \<le> TWITTER_CHAR_LIMIT"
  by (simp add: update_text_def Let_def TWITTER_CHAR_LIMIT_def GAME_LINK_length)

lemma update_text_over:
  "update_text tag text =
     (if length text + length tag \<le> 233
      then [GAMEPAD, 32] @ BOT_NAME @ ascii '' UPDATE '' @ [GAMEPAD, 10, 10] @ text
           @ [10, 10] @ tag @ [10, 10] @ GAME_LINK
      else [GAMEPAD, 32] @ take 255 text @ [10, 10] @ GAME_LINK)"
  by (simp add: update_text_def Let_def TWITTER_CHAR_LIMIT_def GAME_LINK_length BOT_NAME_def
      ascii_def)

lemma truncate_text_short:
  "length x \<le> TWITTER_CHAR_LIMIT \<Longrightarrow> truncate_text x rid = x"
  by (simp add: truncate_text_def)

lemma post_update_events:
  "new_events st (snd (post_update w st text)) =
     new_events st (snd (safe_post_tweet w st
        (update_text (get_personality_line w (clock st)) text) None None))
     @ (case fst (safe_post_tweet w st
              (update_text (get_personality_line w (clock st)) text) None None) of
          Inl e \<Rightarrow> []
        | Inr posted \<Rightarrow> [if posted then Log INFO ''Update posted''
                         else Log ERROR ''Update post failed''])"
proof -
  let ?r = "safe_post_tweet w st (update_text (get_personality_line w (clock st)) text) None None"
  have len: "length (trace st) \<le> length (trace (snd ?r))"
    using adds_new_events(2)[OF spt_adds[of "\<lambda>e. True"]]
    by (metis le_add1 length_append)
  obtain a st' where r: "?r = (a, st')" by (cases ?r)
  show ?thesis
  proof (cases a)
    case (Inl e)
    with r show ?thesis by (simp add: post_update_def)
  next
    case (Inr posted)
    with r len show ?thesis by (simp add: post_update_def new_events_emit)
  qed
qed

text \<open>
  Claim C6, as the code has it.  \<open>post_update\<close> hands one text to the posting function:
  it is at most 280 characters long and ends with the game link.  When the header, the
  body, the personality line and the link fit together (body and line at most 233
  characters), all four are there; otherwise the text is the game pad, the first 255
  characters of the body and the link, without the header and without the personality
  line.
\<close>

theorem post_update_keeps_link:
  "set (posted_texts (new_events st (snd (post_update w st text)))) =
     {update_text (get_personality_line w (clock st)) text}
   \<and> length (update_text tag text) \<le> TWITTER_CHAR_LIMIT
   \<and> py_endswith (update_text tag text) GAME_LINK
   \<and> update_text tag text =
       (if length text + length tag \<le> 233
        then [GAMEPAD, 32] @ BOT_NAME @ ascii '' UPDATE '' @ [GAMEPAD, 10, 10] @ text
             @ [10, 10] @ tag @ [10, 10] @ GAME_LINK
        else [GAMEPAD, 32] @ take 255 text @ [10, 10] @ GAME_LINK)"
proof -
  let ?ft = "update_text (get_personality_line w (clock st)) text"
  have "set (posted_texts (new_events st (snd (post_update w st text)))) =
        set (posted_texts (new_events st (snd (safe_post_tweet w st ?ft None None))))"
    by (simp add: post_update_events posted_texts_append posted_texts_simps
        split: sum.splits)
  also have "\<dots> = {?ft}"
    by (simp add: spt_posted_texts truncate_text_short update_text_length)
  finally have p: "set (posted_texts (new_events st (snd (post_update w st text)))) = {?ft}" .
  show ?thesis
    by (intro conjI p update_text_length update_text_endswith update_text_over)
qed

lemma py_in_hd: "py_in needle hay \<Longrightarrow> needle \<noteq> [] \<Longrightarrow> hd needle \<in> set hay"
proof (induction hay)
  case Nil
  then show ?case by simp
next
  case (Cons c cs)
  show ?case
  proof (cases "take (length needle) (c # cs) = needle")
    case True
    with Cons.prems(2) have "hd needle = c"
      by (cases needle) auto
    then show ?thesis by simp
  next
    case False
    with Cons show ?thesis by simp
  qed
qed

text \<open>
  Claim C6 as stated fails: for a body of 300 characters the personality line is the part
  that is dropped.
\<close>

theorem post_update_drops_tag_counterexample:
  "get_personality_line calm_world (clock state0) = ascii ''Grid updated.''
   \<and> posted_texts (new_events state0 (snd (post_update calm_world state0 (replicate 300 97)))) =
       [[GAMEPAD, 32] @ replicate 255 97 @ [10, 10] @ GAME_LINK]
   \<and> \<not> py_in (ascii ''Grid updated.'') ([GAMEPAD, 32] @ replicate 255 97 @ [10, 10] @ GAME_LINK)"
proof -
  define ft where "ft = [GAMEPAD, 32] @ replicate 255 97 @ [10, 10] @ GAME_LINK"
  have a: "get_personality_line calm_world (clock state0) = ascii ''Grid updated.''"
    by (simp add: calm_world_def)
  have u: "update_text (ascii ''Grid updated.'') (replicate 300 97) = ft"
    by (simp add: update_text_over ascii_def ft_def)
  have v: "v2_result calm_world state0 ft None None = None"
    by (simp add: v2_result_def calm_world_def)
  have t: "truncate_text ft None = ft"
    by (simp add: truncate_text_short TWITTER_CHAR_LIMIT_def GAME_LINK_length ft_def)
  have b: "posted_texts (new_events state0 (snd (post_update calm_world state0 (replicate 300 97))))
           = [ft]"
    by (simp add: post_update_events a u spt_v2_ok[OF v] t ne_simps posted_texts_simps)
  have "hd (ascii ''Grid updated.'') \<notin> set ft"
    by (simp add: ascii_def GAMEPAD_def GAME_LINK_def ft_def)
  then have c: "\<not> py_in (ascii ''Grid updated.'') ft"
    using py_in_hd[of "ascii ''Grid updated.''" ft] by (auto simp: ascii_def)
  show ?thesis unfolding ft_def[symmetric] by (intro conjI a b c)
qed

section \<open>The webhook\<close>

lemma dispatch_None: "dispatch t = None \<longleftrightarrow> t \<notin> JStr ` set known_types"
  by (auto simp: dispatch_def known_types_def)

lemma bridge_unknown:
  assumes "event_get ev (ascii ''type'') = Inr t" "dispatch t = None"
  shows "game_event_bridge w st ev = emit (Log INFO ''Bot processed event'') st"
  using assms by (simp add: game_event_bridge_def bridge_body_def)

lemma bridge_handler_raises:
  assumes "event_get ev (ascii ''type'') = Inr t" "dispatch t = Some h"
    "handle_event w h ev st = (Inl e, st')"
  shows "game_event_bridge w st ev = emit (Log ERROR ''Event bridge error'') st'"
  using assms by (simp add: game_event_bridge_def bridge_body_def)

text \<open>
  Claim C7, as the code has it.  The test of line 130 is \<open>not request.json\<close>: a body whose
  value is falsy (\<open>None\<close>, an empty object, array or string, \<open>0\<close>, \<open>false\<close>) is answered
  with 400 and the error body, and nothing is dispatched.  Every other body is handed to
  \<open>game_event_bridge\<close> and answered with 200 and \<open>{"ok": true}\<close>, also when the handler of
  the event raises: the bridge logs the error and returns.
\<close>

theorem game_event_response:
  "(\<not> py_truthy v \<longrightarrow>
      game_event w st v =
        ((400, JObj [(ascii ''error'', JStr (ascii ''Invalid request: JSON body required''))]), st))
   \<and> (py_truthy v \<longrightarrow>
        fst (game_event w st v) = (200, JObj [(ascii ''ok'', JBool True)])
        \<and> snd (game_event w st v) = game_event_bridge w st v)
   \<and> (py_truthy v \<longrightarrow> event_get v (ascii ''type'') = Inr t \<longrightarrow> dispatch t = Some h \<longrightarrow>
        handle_event w h v st = (Inl e, st') \<longrightarrow>
        game_event w st v =
          ((200, JObj [(ascii ''ok'', JBool True)]), emit (Log ERROR ''Event bridge error'') st'))"
  by (simp add: game_event_def bridge_handler_raises)

text \<open>
  The theorem at a missing body, and at a \<open>win\<close> event whose handler raises.
\<close>

theorem game_event_response_witness:
  "\<not> py_truthy JNull
   \<and> game_event raising_handlers state0 JNull =
       ((400, JObj [(ascii ''error'', JStr (ascii ''Invalid request: JSON body required''))]), state0)
   \<and> py_truthy (JObj [(ascii ''type'', JStr (ascii ''win''))])
   \<and> game_event raising_handlers state0 (JObj [(ascii ''type'', JStr (ascii ''win''))]) =
       ((200, JObj [(ascii ''ok'', JBool True)]), emit (Log ERROR ''Event bridge error'') state0)"
  using game_event_response[of JNull raising_handlers state0]
    game_event_response[of "JObj [(ascii ''type'', JStr (ascii ''win''))]" raising_handlers state0
      "JStr (ascii ''win'')" Win "Exn OtherException (ascii ''KeyError'')" state0]
  by (simp add: event_get_def dispatch_def raising_handlers_def)

text \<open>
  Claim C7 as stated fails: the body \<open>{}\<close> is present and is valid JSON, and it is answered
  with 400 and not dispatched.
\<close>

theorem game_event_empty_object_counterexample:
  "game_event calm_world state0 (JObj []) =
     ((400, JObj [(ascii ''error'', JStr (ascii ''Invalid request: JSON body required''))]), state0)"
  by (simp add: game_event_def)

text \<open>
  Claim C8.  For a payload whose \<open>type\<close> field is none of the six known values, the bridge
  calls no handler and makes no post: all it does is write one log record.  It raises
  nothing, and the webhook answers 200 with \<open>{"ok": true}\<close>.
\<close>

theorem game_event_unknown_type:
  assumes "map_of kvs (ascii ''type'') = Some t" "t \<notin> JStr ` set known_types"
  shows "game_event_bridge w st (JObj kvs) = emit (Log INFO ''Bot processed event'') st
         \<and> new_events st (game_event_bridge w st (JObj kvs)) = [Log INFO ''Bot processed event'']
         \<and> posted_texts (new_events st (game_event_bridge w st (JObj kvs))) = []
         \<and> game_event w st (JObj kvs) =
             ((200, JObj [(ascii ''ok'', JBool True)]), emit (Log INFO ''Bot processed event'') st)"
proof -
  from assms(1) have g: "event_get (JObj kvs) (ascii ''type'') = Inr t"
    by (simp add: event_get_def)
  from assms(2) have d: "dispatch t = None"
    by (simp add: dispatch_None)
  from assms(1) have "kvs \<noteq> []" by auto
  then have "py_truthy (JObj kvs)" by simp
  then show ?thesis
    by (simp add: game_event_def bridge_unknown[OF g d] ne_simps posted_texts_simps)
qed

text \<open>
  The theorem at the payload \<open>{"type": "rematch"}\<close>, in a world whose handlers all raise.
\<close>

theorem game_event_unknown_type_witness:
  "map_of [(ascii ''type'', JStr (ascii ''rematch''))] (ascii ''type'') = Some (JStr (ascii ''rematch''))
   \<and> JStr (ascii ''rematch'') \<notin> JStr ` set known_types
   \<and> posted_texts (new_events state0
        (game_event_bridge raising_handlers state0 (JObj [(ascii ''type'', JStr (ascii ''rematch''))]))) = []
   \<and> game_event raising_handlers state0 (JObj [(ascii ''type'', JStr (ascii ''rematch''))]) =
       ((200, JObj [(ascii ''ok'', JBool True)]), emit (Log INFO ''Bot processed event'') state0)"
  using game_event_unknown_type[of "[(ascii ''type'', JStr (ascii ''rematch''))]"
      "JStr (ascii ''rematch'')" raising_handlers state0]
  by (simp add: known_types_def ascii_def ne_simps posted_texts_simps)

section \<open>The dedup file\<close>

lemma py_eq_JStr: "py_eq (JStr s) y \<longleftrightarrow> y = JStr s"
  by (cases y) (auto simp: py_eq_def)

lemma py_member_JStr: "py_member (JStr s) xs \<longleftrightarrow> JStr s \<in> set xs"
  by (auto simp: py_member_def list_ex_iff py_eq_JStr)

lemma set_py_add_JStr: "set (py_add (JStr s) xs) = insert (JStr s) (set xs)"
  by (auto simp: py_add_def py_member_JStr)

lemma set_foldl_py_add:
  "set (foldl (\<lambda>acc x. py_add x acc) acc (map JStr ss)) = set acc \<union> JStr ` set ss"
  by (induction ss arbitrary: acc) (auto simp: set_py_add_JStr)

lemma set_py_set_of_strs: "set (py_set_of (map JStr ss)) = JStr ` set ss"
  by (simp add: py_set_of_def set_foldl_py_add)

lemma hashable_strs: "list_all hashable (map JStr ss)"
  by (simp add: list_all_iff hashable_def)

lemma seen_empty: "\<not> seen [] m"
  by (simp add: seen_def py_member_def)

lemma distinct_py_add_JStr: "distinct xs \<Longrightarrow> distinct (py_add (JStr s) xs)"
  by (simp add: py_add_def py_member_JStr)

lemma distinct_foldl_py_add:
  "distinct acc \<Longrightarrow> distinct (foldl (\<lambda>acc x. py_add x acc) acc (map JStr ss))"
  by (induction ss arbitrary: acc) (simp_all add: distinct_py_add_JStr)

lemma distinct_py_set_of_strs: "distinct (py_set_of (map JStr ss))"
  by (simp add: py_set_of_def distinct_foldl_py_add)

lemma load_json_set_strs:
  "files st filename = Some (Doc (JArr (map JStr ss))) \<Longrightarrow>
   load_json_set st filename = Inr (py_set_of (map JStr ss))"
  by (simp add: load_json_set_def py_set_def hashable_strs)

text \<open>
  Claim C9.  Without the file, \<open>load_json_set\<close> returns the empty set, in which no mention
  is seen.  With a file that holds a JSON array of strings, it returns a set whose
  members are exactly those strings: each string of the array is a member, nothing else
  is, and no member occurs twice, so the set has as many members as the array has
  different strings.
\<close>

theorem load_json_set_returns:
  "(files st filename = None \<longrightarrow>
      load_json_set st filename = Inr [] \<and> \<not> seen [] m)
   \<and> (files st filename = Some (Doc (JArr (map JStr ss))) \<longrightarrow>
        (\<exists>p. load_json_set st filename = Inr p \<and> set p = JStr ` set ss
             \<and> (\<forall>s. py_member (JStr s) p \<longleftrightarrow> s \<in> set ss)
             \<and> distinct p \<and> length p = card (set ss)))"
proof (intro conjI impI)
  assume "files st filename = None"
  then show "load_json_set st filename = Inr []"
    by (simp add: load_json_set_def)
next
  show "\<not> seen [] m" by (rule seen_empty)
next
  assume f: "files st filename = Some (Doc (JArr (map JStr ss)))"
  let ?p = "py_set_of (map JStr ss)"
  have s: "set ?p = JStr ` set ss" by (rule set_py_set_of_strs)
  have d: "distinct ?p" by (rule distinct_py_set_of_strs)
  have m: "\<forall>s. py_member (JStr s) ?p \<longleftrightarrow> s \<in> set ss"
    by (auto simp: py_member_JStr s)
  have "length ?p = card (set ?p)"
    using d by (simp add: distinct_card)
  also have "\<dots> = card (set ss)"
    by (simp add: s card_image inj_on_def)
  finally have l: "length ?p = card (set ss)" .
  from load_json_set_strs[OF f] s m d l
  show "\<exists>p. load_json_set st filename = Inr p \<and> set p = JStr ` set ss
             \<and> (\<forall>s. py_member (JStr s) p \<longleftrightarrow> s \<in> set ss)
             \<and> distinct p \<and> length p = card (set ss)"
    by (intro exI[of _ ?p] conjI)
qed

text \<open>
  The theorem without a file, at a file that holds \<open>["42"]\<close>, and at a file that holds
  \<open>["42", "43", "42"]\<close>: the string that is there twice is a member once.
\<close>

theorem load_json_set_returns_witness:
  "files state0 PROCESSED_MENTIONS_FILE = None
   \<and> load_json_set state0 PROCESSED_MENTIONS_FILE = Inr []
   \<and> \<not> seen [] (Mention 43 7 (ascii ''@9dttt play''))
   \<and> files disk_42 PROCESSED_MENTIONS_FILE = Some (Doc (JArr (map JStr [ascii ''42''])))
   \<and> load_json_set disk_42 PROCESSED_MENTIONS_FILE = Inr [JStr (ascii ''42'')]
   \<and> files disk_repeats PROCESSED_MENTIONS_FILE =
       Some (Doc (JArr (map JStr [ascii ''42'', ascii ''43'', ascii ''42''])))
   \<and> load_json_set disk_repeats PROCESSED_MENTIONS_FILE =
       Inr [JStr (ascii ''42''), JStr (ascii ''43'')]
   \<and> card (set [ascii ''42'', ascii ''43'', ascii ''42'']) = 2"
proof -
  note t0 = load_json_set_returns[of state0 PROCESSED_MENTIONS_FILE
      "Mention 43 7 (ascii ''@9dttt play'')"]
  note t1 = load_json_set_returns[of disk_42 PROCESSED_MENTIONS_FILE _ "[ascii ''42'']"]
  note t2 = load_json_set_returns[of disk_repeats PROCESSED_MENTIONS_FILE _
      "[ascii ''42'', ascii ''43'', ascii ''42'']"]
  have f0: "files state0 PROCESSED_MENTIONS_FILE = None"
    by (simp add: state0_def)
  have f1: "files disk_42 PROCESSED_MENTIONS_FILE = Some (Doc (JArr (map JStr [ascii ''42''])))"
    by (simp add: disk_42_def)
  have f2: "files disk_repeats PROCESSED_MENTIONS_FILE =
       Some (Doc (JArr (map JStr [ascii ''42'', ascii ''43'', ascii ''42''])))"
    by (simp add: disk_repeats_def)
  from t0 f0 have a: "load_json_set state0 PROCESSED_MENTIONS_FILE = Inr []"
    "\<not> seen [] (Mention 43 7 (ascii ''@9dttt play''))"
    by simp_all
  have b: "load_json_set disk_42 PROCESSED_MENTIONS_FILE = Inr [JStr (ascii ''42'')]"
    by (simp add: disk_42_def load_json_set_def py_set_def hashable_def py_set_of_def
        py_add_def py_member_def)
  have c: "load_json_set disk_repeats PROCESSED_MENTIONS_FILE =
       Inr [JStr (ascii ''42''), JStr (ascii ''43'')]"
    by (simp add: disk_repeats_def load_json_set_def py_set_def hashable_def py_set_of_def
        py_add_def py_member_def py_eq_def ascii_def)
  from t2 f2 obtain p where p: "load_json_set disk_repeats PROCESSED_MENTIONS_FILE = Inr p"
    "length p = card (set [ascii ''42'', ascii ''43'', ascii ''42''])"
    by blast
  from p(1) c have "p = [JStr (ascii ''42''), JStr (ascii ''43'')]"
    by simp
  then have "length p = 2" by simp
  with p(2) have n: "card (set [ascii ''42'', ascii ''43'', ascii ''42'']) = 2"
    by (rule subst)
  from f0 a f1 b f2 c n show ?thesis by (intro conjI)
qed

lemma save_json_set_ok:
  "file_write w (clock st) filename = None \<Longrightarrow>
   save_json_set w st data filename =
     (Inr (), (emit (Call (WriteFile filename data) True) st)
                \<lparr>files := (files st)(filename \<mapsto> Doc (JArr data))\<rparr>)"
  by (simp add: save_json_set_def)

lemma save_json_set_caught:
  "file_write w (clock st) filename = Some fault \<Longrightarrow> exn_class (fault_exn fault) = OSError \<Longrightarrow>
   save_json_set w st data filename =
     (Inr (), emit (Log ERROR ''Failed to save'')
        ((emit (Call (WriteFile filename data) False) st)
           \<lparr>files := disk_after fault filename (files st)\<rparr>))"
  by (simp add: save_json_set_def)

lemma save_json_set_raises:
  "file_write w (clock st) filename = Some fault \<Longrightarrow> exn_class (fault_exn fault) \<noteq> OSError \<Longrightarrow>
   save_json_set w st data filename =
     (Inl (fault_exn fault), (emit (Call (WriteFile filename data) False) st)
           \<lparr>files := disk_after fault filename (files st)\<rparr>)"
  by (simp add: save_json_set_def)

section \<open>One mention\<close>

lemma rtm_seen:
  "seen processed m \<Longrightarrow> respond_to_mention w me processed st m = (Inr processed, st)"
  by (simp add: respond_to_mention_def)

lemma rtm_lookup_raises:
  "\<not> seen processed m \<Longrightarrow> get_user w (clock st) (author_id m) = Inl e \<Longrightarrow>
   respond_to_mention w me processed st m = (Inl e, emit (Call (GetUser (author_id m)) False) st)"
  by (simp add: respond_to_mention_def)

lemma rtm_lookup_empty:
  "\<not> seen processed m \<Longrightarrow> get_user w (clock st) (author_id m) = Inr None \<Longrightarrow>
   respond_to_mention w me processed st m = (Inr processed, after_lookup st m)"
  by (simp add: respond_to_mention_def after_lookup_def)

lemma rtm_generate_raises:
  "\<not> seen processed m \<Longrightarrow> get_user w (clock st) (author_id m) = Inr (Some u) \<Longrightarrow>
   generate_contextual_response w (clock (after_lookup st m)) u me (mention_text m) = Inl e \<Longrightarrow>
   respond_to_mention w me processed st m =
     (Inl e, emit (Call (GenerateResponse u me (mention_text m)) False) (after_lookup st m))"
  by (simp add: respond_to_mention_def after_lookup_def Let_def)

lemma rtm_post_raises:
  "\<not> seen processed m \<Longrightarrow> get_user w (clock st) (author_id m) = Inr (Some u) \<Longrightarrow>
   generate_contextual_response w (clock (after_lookup st m)) u me (mention_text m) = Inr resp \<Longrightarrow>
   reply_result w st m u me resp = (Inl e, st2) \<Longrightarrow>
   respond_to_mention w me processed st m = (Inl e, st2)"
  by (simp add: respond_to_mention_def after_lookup_def after_generate_def reply_result_def Let_def)

lemma rtm_post_failed:
  "\<not> seen processed m \<Longrightarrow> get_user w (clock st) (author_id m) = Inr (Some u) \<Longrightarrow>
   generate_contextual_response w (clock (after_lookup st m)) u me (mention_text m) = Inr resp \<Longrightarrow>
   reply_result w st m u me resp = (Inr False, st2) \<Longrightarrow>
   respond_to_mention w me processed st m = (Inr processed, emit (Log ERROR ''Reply failed'') st2)"
  by (simp add: respond_to_mention_def after_lookup_def after_generate_def reply_result_def Let_def)

lemma rtm_like_raises:
  "\<not> seen processed m \<Longrightarrow> get_user w (clock st) (author_id m) = Inr (Some u) \<Longrightarrow>
   generate_contextual_response w (clock (after_lookup st m)) u me (mention_text m) = Inr resp \<Longrightarrow>
   reply_result w st m u me resp = (Inr True, st2) \<Longrightarrow>
   like w (clock st2) (mention_id m) = Some e \<Longrightarrow>
   respond_to_mention w me processed st m = (Inl e, emit (Call (Like (mention_id m)) False) st2)"
  by (simp add: respond_to_mention_def after_lookup_def after_generate_def reply_result_def Let_def)

lemma rtm_replied:
  "\<not> seen processed m \<Longrightarrow> get_user w (clock st) (author_id m) = Inr (Some u) \<Longrightarrow>
   generate_contextual_response w (clock (after_lookup st m)) u me (mention_text m) = Inr resp \<Longrightarrow>
   reply_result w st m u me resp = (Inr True, st2) \<Longrightarrow>
   like w (clock st2) (mention_id m) = None \<Longrightarrow>
   respond_to_mention w me processed st m =
     (Inr (py_add (JStr (py_str (mention_id m))) processed),
      emit (Log INFO ''Replied'') (emit (Call (Like (mention_id m)) True) st2))"
  by (simp add: respond_to_mention_def after_lookup_def after_generate_def reply_result_def Let_def)

lemma rtm_cases [case_names seen lookup_raises lookup_empty generate_raises post_raises
    post_failed like_raises replied]:
  obtains
    "seen processed m"
  | e where "\<not> seen processed m" "get_user w (clock st) (author_id m) = Inl e"
  | "\<not> seen processed m" "get_user w (clock st) (author_id m) = Inr None"
  | u e where "\<not> seen processed m" "get_user w (clock st) (author_id m) = Inr (Some u)"
      "generate_contextual_response w (clock (after_lookup st m)) u me (mention_text m) = Inl e"
  | u resp e st2 where "\<not> seen processed m" "get_user w (clock st) (author_id m) = Inr (Some u)"
      "generate_contextual_response w (clock (after_lookup st m)) u me (mention_text m) = Inr resp"
      "reply_result w st m u me resp = (Inl e, st2)"
  | u resp st2 where "\<not> seen processed m" "get_user w (clock st) (author_id m) = Inr (Some u)"
      "generate_contextual_response w (clock (after_lookup st m)) u me (mention_text m) = Inr resp"
      "reply_result w st m u me resp = (Inr False, st2)"
  | u resp st2 e where "\<not> seen processed m" "get_user w (clock st) (author_id m) = Inr (Some u)"
      "generate_contextual_response w (clock (after_lookup st m)) u me (mention_text m) = Inr resp"
      "reply_result w st m u me resp = (Inr True, st2)"
      "like w (clock st2) (mention_id m) = Some e"
  | u resp st2 where "\<not> seen processed m" "get_user w (clock st) (author_id m) = Inr (Some u)"
      "generate_contextual_response w (clock (after_lookup st m)) u me (mention_text m) = Inr resp"
      "reply_result w st m u me resp = (Inr True, st2)"
      "like w (clock st2) (mention_id m) = None"
proof (cases "seen processed m")
  case True
  then show ?thesis by (rule that(1))
next
  case ns: False
  show ?thesis
  proof (cases "get_user w (clock st) (author_id m)")
    case (Inl e)
    with ns show ?thesis by (rule that(2))
  next
    case (Inr uo)
    show ?thesis
    proof (cases uo)
      case None
      with ns Inr show ?thesis by (simp add: that(3))
    next
      case (Some u)
      with Inr have gu: "get_user w (clock st) (author_id m) = Inr (Some u)" by simp
      show ?thesis
      proof (cases "generate_contextual_response w (clock (after_lookup st m)) u me (mention_text m)")
        case (Inl e)
        with ns gu show ?thesis by (rule that(4))
      next
        case gen: (Inr resp)
        obtain a st2 where r: "reply_result w st m u me resp = (a, st2)"
          by (cases "reply_result w st m u me resp")
        show ?thesis
        proof (cases a)
          case (Inl e)
          with r have "reply_result w st m u me resp = (Inl e, st2)" by simp
          with ns gu gen show ?thesis by (rule that(5))
        next
          case (Inr ok)
          show ?thesis
          proof (cases ok)
            case False
            with r Inr have "reply_result w st m u me resp = (Inr False, st2)" by simp
            with ns gu gen show ?thesis by (rule that(6))
          next
            case True
            with r Inr have rr: "reply_result w st m u me resp = (Inr True, st2)" by simp
            show ?thesis
            proof (cases "like w (clock st2) (mention_id m)")
              case None
              with ns gu gen rr show ?thesis by (rule that(8))
            next
              case (Some e)
              with ns gu gen rr show ?thesis by (rule that(7))
            qed
          qed
        qed
      qed
    qed
  qed
qed

lemma adds_length: "adds P st st' \<Longrightarrow> length (trace st) \<le> length (trace st')"
  by (auto simp: adds_def)

lemma reply_adds:
  assumes "allows P me m"
  shows "adds P st (snd (reply_result w st m u me resp))"
proof -
  from assms have a: "adds P st (after_generate st m u me)"
    by (simp add: after_generate_def after_lookup_def allows_def adds_emit adds_refl)
  from assms have "adds P (after_generate st m u me) (snd (reply_result w st m u me resp))"
    unfolding reply_result_def
    by (intro spt_adds) (simp_all add: allows_def media_kwarg_def)
  with a show ?thesis by (rule adds_trans)
qed

lemma reply_files: "files (snd (reply_result w st m u me resp)) = files st"
  by (simp add: reply_result_def spt_files after_generate_def after_lookup_def files_emit)

lemma rtm_adds:
  assumes al: "allows P me m"
  shows "adds P st (snd (respond_to_mention w me processed st m))"
proof (cases rule: rtm_cases[where processed=processed and m=m and w=w and st=st and me=me])
  case seen
  then show ?thesis by (simp add: rtm_seen adds_refl)
next
  case (lookup_raises e)
  with al show ?thesis by (simp add: rtm_lookup_raises adds_emit adds_refl allows_def)
next
  case lookup_empty
  with al show ?thesis
    by (simp add: rtm_lookup_empty after_lookup_def adds_emit adds_refl allows_def)
next
  case (generate_raises u e)
  with al show ?thesis
    by (simp add: rtm_generate_raises after_lookup_def adds_emit adds_refl allows_def)
next
  case (post_raises u resp e st2)
  from reply_adds[OF al, of st w u resp] post_raises(4) have "adds P st st2" by simp
  with post_raises show ?thesis by (simp add: rtm_post_raises)
next
  case (post_failed u resp st2)
  from reply_adds[OF al, of st w u resp] post_failed(4) have "adds P st st2" by simp
  with post_failed al show ?thesis by (simp add: rtm_post_failed adds_emit allows_def)
next
  case (like_raises u resp st2 e)
  from reply_adds[OF al, of st w u resp] like_raises(4) have "adds P st st2" by simp
  with like_raises al show ?thesis by (simp add: rtm_like_raises adds_emit allows_def)
next
  case (replied u resp st2)
  from reply_adds[OF al, of st w u resp] replied(4) have "adds P st st2" by simp
  with replied al show ?thesis by (simp add: rtm_replied adds_emit allows_def)
qed

lemma rtm_files: "files (snd (respond_to_mention w me processed st m)) = files st"
proof (cases rule: rtm_cases[where processed=processed and m=m and w=w and st=st and me=me])
  case seen
  then show ?thesis by (simp add: rtm_seen)
next
  case (lookup_raises e)
  then show ?thesis by (simp add: rtm_lookup_raises files_emit)
next
  case lookup_empty
  then show ?thesis by (simp add: rtm_lookup_empty after_lookup_def files_emit)
next
  case (generate_raises u e)
  then show ?thesis by (simp add: rtm_generate_raises after_lookup_def files_emit)
next
  case (post_raises u resp e st2)
  from reply_files[of w st m u me resp] post_raises(4) have "files st2 = files st" by simp
  with post_raises show ?thesis by (simp add: rtm_post_raises)
next
  case (post_failed u resp st2)
  from reply_files[of w st m u me resp] post_failed(4) have "files st2 = files st" by simp
  with post_failed show ?thesis by (simp add: rtm_post_failed files_emit)
next
  case (like_raises u resp st2 e)
  from reply_files[of w st m u me resp] like_raises(4) have "files st2 = files st" by simp
  with like_raises show ?thesis by (simp add: rtm_like_raises files_emit)
next
  case (replied u resp st2)
  from reply_files[of w st m u me resp] replied(4) have "files st2 = files st" by simp
  with replied show ?thesis by (simp add: rtm_replied files_emit)
qed

lemma marks_append: "marks (xs @ ys) = marks xs @ marks ys"
  by (simp add: marks_def List.map_filter_def)

lemma marks_none: "list_all (\<lambda>e. mark e = None) es \<Longrightarrow> marks es = []"
  by (induction es) (simp_all add: marks_def List.map_filter_def)

lemma pre_like_no_mark:
  "adds (\<lambda>e. mark e = None) st (snd (reply_result w st m u me resp))"
proof -
  have a: "adds (\<lambda>e. mark e = None) st (after_generate st m u me)"
    by (simp add: after_generate_def after_lookup_def adds_emit adds_refl mark_def)
  have "adds (\<lambda>e. mark e = None) (after_generate st m u me) (snd (reply_result w st m u me resp))"
    unfolding reply_result_def
    by (intro spt_adds) (simp_all add: mark_def)
  with a show ?thesis by (rule adds_trans)
qed

lemma rtm_marks:
  assumes "respond_to_mention w me processed st m = (Inr p', st')"
  shows "set p' = set processed \<union> set (marks (new_events st st'))"
proof (cases rule: rtm_cases[where processed=processed and m=m and w=w and st=st and me=me])
  case seen
  with assms show ?thesis by (simp add: rtm_seen new_events_self marks_def List.map_filter_def)
next
  case (lookup_raises e)
  with assms show ?thesis by (simp add: rtm_lookup_raises)
next
  case lookup_empty
  with assms show ?thesis
    by (auto simp: rtm_lookup_empty after_lookup_def ne_simps marks_def List.map_filter_def mark_def)
next
  case (generate_raises u e)
  with assms show ?thesis by (simp add: rtm_generate_raises)
next
  case (post_raises u resp e st2)
  with assms show ?thesis by (simp add: rtm_post_raises)
next
  case (post_failed u resp st2)
  from pre_like_no_mark[of st w m u me resp] post_failed(4)
  have a: "adds (\<lambda>e. mark e = None) st st2" by simp
  have "new_events st (emit (Log ERROR ''Reply failed'') st2) =
        new_events st st2 @ [Log ERROR ''Reply failed'']"
    by (simp add: new_events_emit adds_length[OF a])
  moreover have "marks (new_events st st2) = []"
    by (rule marks_none) (rule adds_new_events(1)[OF a])
  moreover have "marks [Log ERROR ''Reply failed''] = []"
    by (simp add: marks_def List.map_filter_def mark_def)
  ultimately show ?thesis
    using assms post_failed by (auto simp: rtm_post_failed marks_append)
next
  case (like_raises u resp st2 e)
  with assms show ?thesis by (simp add: rtm_like_raises)
next
  case (replied u resp st2)
  from pre_like_no_mark[of st w m u me resp] replied(4)
  have a: "adds (\<lambda>e. mark e = None) st st2" by simp
  have "new_events st (emit (Log INFO ''Replied'') (emit (Call (Like (mention_id m)) True) st2)) =
        new_events st st2 @ [Call (Like (mention_id m)) True, Log INFO ''Replied'']"
    using adds_length[OF a] by (simp add: new_events_def emit_def)
  moreover have "marks (new_events st st2) = []"
    by (rule marks_none) (rule adds_new_events(1)[OF a])
  moreover have "marks [Call (Like (mention_id m)) True, Log INFO ''Replied''] =
      [JStr (py_str (mention_id m))]"
    by (simp add: marks_def List.map_filter_def mark_def)
  ultimately show ?thesis
    using assms replied by (auto simp: rtm_replied marks_append set_py_add_JStr)
qed

lemma rtm_mono:
  "respond_to_mention w me processed st m = (Inr p', st') \<Longrightarrow> set processed \<subseteq> set p'"
  using rtm_marks by blast

section \<open>The loop\<close>

lemma loop_adds:
  assumes "\<And>m. m \<in> set ms \<Longrightarrow> allows P me m"
  shows "adds P st (snd (respond_loop w me processed st ms))"
  using assms
proof (induction ms arbitrary: processed st)
  case Nil
  then show ?case by (simp add: adds_refl)
next
  case (Cons m ms)
  obtain a st' where r: "respond_to_mention w me processed st m = (a, st')"
    by (cases "respond_to_mention w me processed st m")
  have s: "adds P st st'"
    using rtm_adds[of P me m st w processed] Cons.prems r by simp
  show ?case
  proof (cases a)
    case (Inl e)
    with r s show ?thesis by simp
  next
    case (Inr p')
    have "adds P st' (snd (respond_loop w me p' st' ms))"
      using Cons.IH Cons.prems by simp
    with s have "adds P st (snd (respond_loop w me p' st' ms))" by (rule adds_trans)
    with r Inr show ?thesis by simp
  qed
qed

lemma allows_any: "allows (\<lambda>e. True) me m"
  by (simp add: allows_def)

lemma allows_no_write: "allows (\<lambda>e. \<not> is_write e) me m"
  by (simp add: allows_def is_write_def)

lemma loop_files: "files (snd (respond_loop w me processed st ms)) = files st"
proof (induction ms arbitrary: processed st)
  case Nil
  then show ?case by simp
next
  case (Cons m ms)
  obtain a st' where r: "respond_to_mention w me processed st m = (a, st')"
    by (cases "respond_to_mention w me processed st m")
  with rtm_files[of w me processed st m] have f: "files st' = files st" by simp
  show ?case
  proof (cases a)
    case (Inl e)
    with r f show ?thesis by simp
  next
    case (Inr p')
    with r f Cons.IH[of p' st'] show ?thesis by simp
  qed
qed

lemma loop_marks:
  "respond_loop w me processed st ms = (Inr p', st') \<Longrightarrow>
   set p' = set processed \<union> set (marks (new_events st st'))"
proof (induction ms arbitrary: processed st)
  case Nil
  then show ?case by (simp add: new_events_self marks_def List.map_filter_def)
next
  case (Cons m ms)
  obtain a st1 where r: "respond_to_mention w me processed st m = (a, st1)"
    by (cases "respond_to_mention w me processed st m")
  show ?case
  proof (cases a)
    case (Inl e)
    with r Cons.prems show ?thesis by simp
  next
    case (Inr p1)
    with r Cons.prems have l: "respond_loop w me p1 st1 ms = (Inr p', st')" by simp
    have s1: "adds (\<lambda>e. True) st st1"
      using rtm_adds[OF allows_any, of st w me processed m] r by simp
    have s2: "adds (\<lambda>e. True) st1 st'"
      using loop_adds[of ms "\<lambda>e. True" me st1 w p1] l by (simp add: allows_any)
    have "set p1 = set processed \<union> set (marks (new_events st st1))"
      using rtm_marks r Inr by simp
    moreover have "set p' = set p1 \<union> set (marks (new_events st1 st'))"
      using Cons.IH[OF l] .
    ultimately show ?thesis
      by (auto simp: new_events_trans[OF s1 s2] marks_append)
  qed
qed

lemma loop_skips:
  assumes "set seen0 \<subseteq> set processed"
  shows "respond_loop w me processed st ms =
         respond_loop w me processed st (filter (\<lambda>m. \<not> seen seen0 m) ms)"
  using assms
proof (induction ms arbitrary: processed st)
  case Nil
  then show ?case by simp
next
  case (Cons m ms)
  show ?case
  proof (cases "seen seen0 m")
    case True
    with Cons.prems have "seen processed m"
      by (auto simp: seen_def py_member_JStr)
    then have "respond_loop w me processed st (m # ms) = respond_loop w me processed st ms"
      by (simp add: rtm_seen)
    with True Cons.IH[OF Cons.prems] show ?thesis by simp
  next
    case False
    obtain a st1 where r: "respond_to_mention w me processed st m = (a, st1)"
      by (cases "respond_to_mention w me processed st m")
    show ?thesis
    proof (cases a)
      case (Inl e)
      with r False show ?thesis by simp
    next
      case (Inr p1)
      with r have "set processed \<subseteq> set p1" using rtm_mono by simp
      with Cons.prems have "set seen0 \<subseteq> set p1" by simp
      from Cons.IH[OF this] r Inr False show ?thesis by simp
    qed
  qed
qed

lemma loop_never_touches:
  assumes "JStr (py_str i) \<in> set processed"
  shows "adds (\<lambda>e. \<not> touches i e) st (snd (respond_loop w me processed st ms))"
  using assms
proof (induction ms arbitrary: processed st)
  case Nil
  then show ?case by (simp add: adds_refl)
next
  case (Cons m ms)
  obtain a st1 where r: "respond_to_mention w me processed st m = (a, st1)"
    by (cases "respond_to_mention w me processed st m")
  have s: "adds (\<lambda>e. \<not> touches i e) st st1"
  proof (cases "seen processed m")
    case True
    with r show ?thesis by (simp add: rtm_seen adds_refl)
  next
    case False
    with Cons.prems have "mention_id m \<noteq> i"
      by (auto simp: seen_def py_member_JStr)
    then have "allows (\<lambda>e. \<not> touches i e) me m"
      by (auto simp: allows_def touches_def reply_kwarg_def)
    from rtm_adds[OF this, of st w processed] r show ?thesis by simp
  qed
  show ?case
  proof (cases a)
    case (Inl e)
    with r s show ?thesis by simp
  next
    case (Inr p1)
    with r have "set processed \<subseteq> set p1" using rtm_mono by simp
    with Cons.prems have "JStr (py_str i) \<in> set p1" by auto
    from Cons.IH[OF this, of st1] have "adds (\<lambda>e. \<not> touches i e) st1 (snd (respond_loop w me p1 st1 ms))" .
    with s have "adds (\<lambda>e. \<not> touches i e) st (snd (respond_loop w me p1 st1 ms))"
      by (rule adds_trans)
    with r Inr show ?thesis by simp
  qed
qed

section \<open>save_json_set and the cycle, path by path\<close>

lemma new_events_files: "new_events st (st'\<lparr>files := d\<rparr>) = new_events st st'"
  by (simp add: new_events_def)

lemma emit_files_swap: "emit e (st\<lparr>files := d\<rparr>) = (emit e st)\<lparr>files := d\<rparr>"
  by (simp add: emit_def)

lemma save_adds:
  assumes "\<And>ok. P (Call (WriteFile filename data) ok)" "\<And>l s. P (Log l s)"
  shows "adds P st (snd (save_json_set w st data filename))"
proof (cases "file_write w (clock st) filename")
  case None
  then show ?thesis by (simp add: save_json_set_ok adds_files adds_emit adds_refl assms)
next
  case (Some fault)
  then show ?thesis
    by (cases "exn_class (fault_exn fault) = OSError")
       (simp_all add: save_json_set_caught save_json_set_raises adds_files adds_emit adds_refl assms)
qed

lemma br_load_fails:
  "load_json_set st PROCESSED_MENTIONS_FILE = Inl e \<Longrightarrow> bot_respond w st = (Inl e, st)"
  by (simp add: bot_respond_def)

lemma br_me_raises:
  "load_json_set st PROCESSED_MENTIONS_FILE = Inr loaded \<Longrightarrow> get_me w (clock st) = Inl e \<Longrightarrow>
   bot_respond w st =
     (Inr (Caught e), emit (Log ERROR ''Mentions processing error'') (emit (Call GetMe False) st))"
  by (simp add: bot_respond_def respond_try_def)

lemma br_no_self:
  "load_json_set st PROCESSED_MENTIONS_FILE = Inr loaded \<Longrightarrow> get_me w (clock st) = Inr None \<Longrightarrow>
   bot_respond w st = (Inr NoSelf, after_me st)"
  by (simp add: bot_respond_def respond_try_def after_me_def)

lemma br_mentions_raise:
  "load_json_set st PROCESSED_MENTIONS_FILE = Inr loaded \<Longrightarrow>
   get_me w (clock st) = Inr (Some (i, me)) \<Longrightarrow>
   get_users_mentions w (clock (after_me st)) i = Inl e \<Longrightarrow>
   bot_respond w st =
     (Inr (Caught e), emit (Log ERROR ''Mentions processing error'')
        (emit (Call (GetUsersMentions i) False) (after_me st)))"
  by (simp add: bot_respond_def respond_try_def after_me_def)

lemma br_no_mentions:
  "load_json_set st PROCESSED_MENTIONS_FILE = Inr loaded \<Longrightarrow>
   get_me w (clock st) = Inr (Some (i, me)) \<Longrightarrow>
   get_users_mentions w (clock (after_me st)) i = Inr None
     \<or> get_users_mentions w (clock (after_me st)) i = Inr (Some []) \<Longrightarrow>
   bot_respond w st = (Inr NoMentions, after_mentions st i)"
  by (auto simp: bot_respond_def respond_try_def after_me_def after_mentions_def)

lemma br_loop_raises:
  "load_json_set st PROCESSED_MENTIONS_FILE = Inr loaded \<Longrightarrow>
   get_me w (clock st) = Inr (Some (i, me)) \<Longrightarrow>
   get_users_mentions w (clock (after_me st)) i = Inr (Some (m # ms)) \<Longrightarrow>
   respond_loop w me loaded (after_mentions st i) (m # ms) = (Inl e, st2) \<Longrightarrow>
   bot_respond w st = (Inr (Caught e), emit (Log ERROR ''Mentions processing error'') st2)"
  by (simp add: bot_respond_def respond_try_def after_me_def after_mentions_def
      del: respond_loop.simps)

lemma br_saved:
  "load_json_set st PROCESSED_MENTIONS_FILE = Inr loaded \<Longrightarrow>
   get_me w (clock st) = Inr (Some (i, me)) \<Longrightarrow>
   get_users_mentions w (clock (after_me st)) i = Inr (Some (m # ms)) \<Longrightarrow>
   respond_loop w me loaded (after_mentions st i) (m # ms) = (Inr p, st2) \<Longrightarrow>
   save_json_set w st2 p PROCESSED_MENTIONS_FILE = (Inr u, st3) \<Longrightarrow>
   bot_respond w st = (Inr Completed, st3)"
  by (simp add: bot_respond_def respond_try_def after_me_def after_mentions_def
      del: respond_loop.simps)

lemma br_save_raises:
  "load_json_set st PROCESSED_MENTIONS_FILE = Inr loaded \<Longrightarrow>
   get_me w (clock st) = Inr (Some (i, me)) \<Longrightarrow>
   get_users_mentions w (clock (after_me st)) i = Inr (Some (m # ms)) \<Longrightarrow>
   respond_loop w me loaded (after_mentions st i) (m # ms) = (Inr p, st2) \<Longrightarrow>
   save_json_set w st2 p PROCESSED_MENTIONS_FILE = (Inl e, st3) \<Longrightarrow>
   bot_respond w st = (Inr (Caught e), emit (Log ERROR ''Mentions processing error'') st3)"
  by (simp add: bot_respond_def respond_try_def after_me_def after_mentions_def
      del: respond_loop.simps)

lemma br_cases [case_names load_fails me_raises no_self mentions_raise no_mentions loop_raises
    saved save_raises]:
  obtains
    e where "load_json_set st PROCESSED_MENTIONS_FILE = Inl e"
  | loaded e where "load_json_set st PROCESSED_MENTIONS_FILE = Inr loaded"
      "get_me w (clock st) = Inl e"
  | loaded where "load_json_set st PROCESSED_MENTIONS_FILE = Inr loaded"
      "get_me w (clock st) = Inr None"
  | loaded i me e where "load_json_set st PROCESSED_MENTIONS_FILE = Inr loaded"
      "get_me w (clock st) = Inr (Some (i, me))"
      "get_users_mentions w (clock (after_me st)) i = Inl e"
  | loaded i me where "load_json_set st PROCESSED_MENTIONS_FILE = Inr loaded"
      "get_me w (clock st) = Inr (Some (i, me))"
      "get_users_mentions w (clock (after_me st)) i = Inr None
       \<or> get_users_mentions w (clock (after_me st)) i = Inr (Some [])"
  | loaded i me m ms e st2 where "load_json_set st PROCESSED_MENTIONS_FILE = Inr loaded"
      "get_me w (clock st) = Inr (Some (i, me))"
      "get_users_mentions w (clock (after_me st)) i = Inr (Some (m # ms))"
      "respond_loop w me loaded (after_mentions st i) (m # ms) = (Inl e, st2)"
  | loaded i me m ms p st2 st3 where "load_json_set st PROCESSED_MENTIONS_FILE = Inr loaded"
      "get_me w (clock st) = Inr (Some (i, me))"
      "get_users_mentions w (clock (after_me st)) i = Inr (Some (m # ms))"
      "respond_loop w me loaded (after_mentions st i) (m # ms) = (Inr p, st2)"
      "save_json_set w st2 p PROCESSED_MENTIONS_FILE = (Inr (), st3)"
  | loaded i me m ms p st2 e st3 where "load_json_set st PROCESSED_MENTIONS_FILE = Inr loaded"
      "get_me w (clock st) = Inr (Some (i, me))"
      "get_users_mentions w (clock (after_me st)) i = Inr (Some (m # ms))"
      "respond_loop w me loaded (after_mentions st i) (m # ms) = (Inr p, st2)"
      "save_json_set w st2 p PROCESSED_MENTIONS_FILE = (Inl e, st3)"
proof (cases "load_json_set st PROCESSED_MENTIONS_FILE")
  case (Inl e)
  then show ?thesis by (rule that(1))
next
  case ld: (Inr loaded)
  show ?thesis
  proof (cases "get_me w (clock st)")
    case (Inl e)
    with ld show ?thesis by (rule that(2))
  next
    case (Inr mo)
    show ?thesis
    proof (cases mo)
      case None
      with ld Inr show ?thesis by (simp add: that(3))
    next
      case (Some ime)
      obtain i me where "ime = (i, me)" by (cases ime)
      with Inr Some have gm: "get_me w (clock st) = Inr (Some (i, me))" by simp
      show ?thesis
      proof (cases "get_users_mentions w (clock (after_me st)) i")
        case (Inl e)
        with ld gm show ?thesis by (rule that(4))
      next
        case (Inr mso)
        show ?thesis
        proof (cases mso)
          case None
          with Inr have "get_users_mentions w (clock (after_me st)) i = Inr None
            \<or> get_users_mentions w (clock (after_me st)) i = Inr (Some [])" by simp
          with ld gm show ?thesis by (rule that(5))
        next
          case (Some msl)
          show ?thesis
          proof (cases msl)
            case Nil
            with Inr Some have "get_users_mentions w (clock (after_me st)) i = Inr None
              \<or> get_users_mentions w (clock (after_me st)) i = Inr (Some [])" by simp
            with ld gm show ?thesis by (rule that(5))
          next
            case (Cons m ms)
            with Inr Some
            have gu: "get_users_mentions w (clock (after_me st)) i = Inr (Some (m # ms))"
              by simp
            obtain a st2 where l: "respond_loop w me loaded (after_mentions st i) (m # ms) = (a, st2)"
              by (cases "respond_loop w me loaded (after_mentions st i) (m # ms)")
            show ?thesis
            proof (cases a)
              case (Inl e)
              with l have "respond_loop w me loaded (after_mentions st i) (m # ms) = (Inl e, st2)"
                by simp
              with ld gm gu show ?thesis by (rule that(6))
            next
              case (Inr p)
              with l have lp: "respond_loop w me loaded (after_mentions st i) (m # ms) = (Inr p, st2)"
                by simp
              obtain b st3 where sv: "save_json_set w st2 p PROCESSED_MENTIONS_FILE = (b, st3)"
                by (cases "save_json_set w st2 p PROCESSED_MENTIONS_FILE")
              show ?thesis
              proof (cases b)
                case (Inl e)
                with sv have "save_json_set w st2 p PROCESSED_MENTIONS_FILE = (Inl e, st3)"
                  by simp
                with ld gm gu lp show ?thesis by (rule that(8))
              next
                case (Inr u)
                with sv have "save_json_set w st2 p PROCESSED_MENTIONS_FILE = (Inr (), st3)"
                  by simp
                with ld gm gu lp show ?thesis by (rule that(7))
              qed
            qed
          qed
        qed
      qed
    qed
  qed
qed

section \<open>What a cycle does to the trace and to the file\<close>

lemma after_mentions_adds:
  assumes "\<And>ok. P (Call GetMe ok)" "\<And>i ok. P (Call (GetUsersMentions i) ok)"
  shows "adds P st (after_me st)" and "adds P st (after_mentions st i)"
  by (simp_all add: after_me_def after_mentions_def adds_emit adds_refl assms)

lemma after_mentions_events:
  "new_events st (after_mentions st i) = [Call GetMe True, Call (GetUsersMentions i) True]"
  by (simp add: after_mentions_def after_me_def ne_simps)

lemma after_mentions_files: "files (after_mentions st i) = files st" "files (after_me st) = files st"
  by (simp_all add: after_mentions_def after_me_def files_emit)

lemma br_never_touches:
  assumes ld: "load_json_set st PROCESSED_MENTIONS_FILE = Inr loaded"
    and mem: "JStr (py_str i) \<in> set loaded"
  shows "adds (\<lambda>e. \<not> touches i e) st (snd (bot_respond w st))"
proof -
  let ?P = "\<lambda>e. \<not> touches i e"
  have am: "adds ?P st (after_me st)" and ams: "\<And>j. adds ?P st (after_mentions st j)"
    by (rule after_mentions_adds; simp add: touches_def)+
  have lg: "\<And>l s. ?P (Log l s)" by (simp add: touches_def)
  have pm: "\<And>ok. ?P (Call GetMe ok)" by (simp add: touches_def)
  have rf: "adds ?P st st" by (rule adds_refl)
  have pg: "\<And>j ok. ?P (Call (GetUsersMentions j) ok)" by (simp add: touches_def)
  show ?thesis
  proof (cases rule: br_cases[where st=st and w=w])
    case (load_fails e)
    with ld show ?thesis by simp
  next
    case (me_raises loaded' e)
    then show ?thesis
      by (simp add: br_me_raises adds_emit[OF adds_emit[OF rf pm] lg])
  next
    case (no_self loaded')
    then show ?thesis by (simp add: br_no_self am)
  next
    case (mentions_raise loaded' j me e)
    then show ?thesis
      by (simp add: br_mentions_raise adds_emit[OF adds_emit[OF am pg] lg])
  next
    case (no_mentions loaded' j me)
    then show ?thesis by (simp add: br_no_mentions ams)
  next
    case (loop_raises loaded' j me m ms e st2)
    with ld have l: "respond_loop w me loaded (after_mentions st j) (m # ms) = (Inl e, st2)"
      by simp
    from loop_never_touches[OF mem, of "after_mentions st j" w me "m # ms"] l
    have "adds ?P (after_mentions st j) st2" by simp
    with ams have "adds ?P st st2" by (rule adds_trans)
    from adds_emit[OF this lg] loop_raises show ?thesis by (simp add: br_loop_raises)
  next
    case (saved loaded' j me m ms p st2 st3)
    with ld have l: "respond_loop w me loaded (after_mentions st j) (m # ms) = (Inr p, st2)"
      by simp
    from loop_never_touches[OF mem, of "after_mentions st j" w me "m # ms"] l
    have "adds ?P (after_mentions st j) st2" by simp
    with ams have a: "adds ?P st st2" by (rule adds_trans)
    have "adds ?P st2 (snd (save_json_set w st2 p PROCESSED_MENTIONS_FILE))"
      by (rule save_adds) (simp_all add: touches_def)
    with saved(5) have "adds ?P st2 st3" by simp
    with a have "adds ?P st st3" by (rule adds_trans)
    with saved show ?thesis by (simp add: br_saved)
  next
    case (save_raises loaded' j me m ms p st2 e st3)
    with ld have l: "respond_loop w me loaded (after_mentions st j) (m # ms) = (Inr p, st2)"
      by simp
    from loop_never_touches[OF mem, of "after_mentions st j" w me "m # ms"] l
    have "adds ?P (after_mentions st j) st2" by simp
    with ams have a: "adds ?P st st2" by (rule adds_trans)
    have "adds ?P st2 (snd (save_json_set w st2 p PROCESSED_MENTIONS_FILE))"
      by (rule save_adds) (simp_all add: touches_def)
    with save_raises(5) have "adds ?P st2 st3" by simp
    with a have "adds ?P st st3" by (rule adds_trans)
    from adds_emit[OF this lg] save_raises show ?thesis by (simp add: br_save_raises)
  qed
qed

lemma no_write_filter: "list_all (\<lambda>e. \<not> is_write e) es \<Longrightarrow> filter is_write es = []"
  by (induction es) simp_all

lemma no_write_ex: "list_all (\<lambda>e. \<not> is_write e) es \<Longrightarrow> \<not> list_ex is_write es"
  by (simp add: list_all_iff list_ex_iff)

lemma quiet_shape:
  assumes "adds (\<lambda>e. \<not> is_write e) st st'" "files st' = files st" "c \<noteq> Inr Completed"
  shows "persist_shape w st c st'"
proof -
  from assms(1) have "list_all (\<lambda>e. \<not> is_write e) (new_events st st')"
    by (rule adds_new_events(1))
  with assms(2,3) show ?thesis
    by (simp add: persist_shape_def no_write_filter no_write_ex)
qed

lemma written_shape:
  assumes a: "list_all (\<lambda>e. \<not> is_write e) es0"
    and e: "new_events st st' =
              es0 @ Call (WriteFile PROCESSED_MENTIONS_FILE p) ok
                    # (if ok then [] else [Log ERROR ''Failed to save''])"
    and l: "load_json_set st PROCESSED_MENTIONS_FILE = Inr loaded"
    and m: "set p = set loaded \<union> set (marks es0)"
    and f: "ok \<longrightarrow> files st' PROCESSED_MENTIONS_FILE = Some (Doc (JArr p))"
  shows "persist_shape w st (Inr Completed) st'"
proof -
  have 1: "length (filter is_write (new_events st st')) \<le> 1"
    by (simp add: e no_write_filter[OF a] is_write_def)
  have 2: "\<exists>es p ok loaded.
             new_events st st' =
               es @ Call (WriteFile PROCESSED_MENTIONS_FILE p) ok
                    # (if ok then [] else [Log ERROR ''Failed to save''])
             \<and> \<not> list_ex is_write es
             \<and> load_json_set st PROCESSED_MENTIONS_FILE = Inr loaded
             \<and> set p = set loaded \<union> set (marks es)
             \<and> (ok \<longrightarrow> files st' PROCESSED_MENTIONS_FILE = Some (Doc (JArr p)))"
    using e no_write_ex[OF a] l m f by blast
  have 3: "list_ex is_write (new_events st st')"
    by (simp add: e is_write_def)
  from 1 2 3 show ?thesis
    unfolding persist_shape_def by blast
qed

lemma raised_write_shape:
  assumes a: "list_all (\<lambda>e. \<not> is_write e) es0"
    and e: "new_events st st' =
              es0 @ [Call (WriteFile PROCESSED_MENTIONS_FILE p) False,
                     Log ERROR ''Mentions processing error'']"
    and o: "\<not> os_faults w"
  shows "persist_shape w st (Inr (Caught ex)) st'"
proof -
  have 1: "length (filter is_write (new_events st st')) \<le> 1"
    by (simp add: e no_write_filter[OF a] is_write_def)
  have 3: "list_ex is_write (new_events st st')"
    by (simp add: e is_write_def)
  from 1 3 o show ?thesis
    unfolding persist_shape_def by simp
qed

lemma save_events:
  assumes a: "adds P st st2"
  shows "file_write w (clock st2) f = None \<Longrightarrow>
           new_events st (snd (save_json_set w st2 p f)) =
             new_events st st2 @ [Call (WriteFile f p) True]"
    and "file_write w (clock st2) f = Some fault \<Longrightarrow> exn_class (fault_exn fault) = OSError \<Longrightarrow>
           new_events st (snd (save_json_set w st2 p f)) =
             new_events st st2 @ [Call (WriteFile f p) False, Log ERROR ''Failed to save'']"
    and "file_write w (clock st2) f = Some fault \<Longrightarrow> exn_class (fault_exn fault) \<noteq> OSError \<Longrightarrow>
           new_events st (snd (save_json_set w st2 p f)) =
             new_events st st2 @ [Call (WriteFile f p) False]"
  using adds_length[OF a]
  by (simp_all add: save_json_set_ok save_json_set_caught save_json_set_raises new_events_def
      emit_def)

lemma marks_prefix:
  "marks ([Call GetMe True, Call (GetUsersMentions i) True] @ es) = marks es"
  by (simp add: marks_def List.map_filter_def mark_def)

lemma cycle_shape: "persist_shape w st (fst (bot_respond w st)) (snd (bot_respond w st))"
proof -
  let ?P = "\<lambda>e. \<not> is_write e"
  have pm: "\<And>ok. ?P (Call GetMe ok)" by (simp add: is_write_def)
  have pg: "\<And>j ok. ?P (Call (GetUsersMentions j) ok)" by (simp add: is_write_def)
  have lg: "\<And>l s. ?P (Log l s)" by (simp add: is_write_def)
  have rf: "adds ?P st st" by (rule adds_refl)
  have am: "adds ?P st (after_me st)" and ams: "\<And>j. adds ?P st (after_mentions st j)"
    by (rule after_mentions_adds; simp add: is_write_def)+
  have loop: "adds ?P st (snd (respond_loop w me loaded (after_mentions st j) ms))"
    for me loaded j ms
    by (rule adds_trans[OF ams]) (rule loop_adds, rule allows_no_write)
  have loopf: "files (snd (respond_loop w me loaded (after_mentions st j) ms)) = files st"
    for me loaded j ms
    by (simp add: loop_files after_mentions_files)
  show ?thesis
  proof (cases rule: br_cases[where st=st and w=w])
    case (load_fails e)
    then show ?thesis by (simp add: br_load_fails quiet_shape[OF rf])
  next
    case (me_raises loaded e)
    then show ?thesis
      by (simp add: br_me_raises quiet_shape[OF adds_emit[OF adds_emit[OF rf pm] lg]] files_emit)
  next
    case (no_self loaded)
    then show ?thesis
      by (simp add: br_no_self quiet_shape[OF am] after_mentions_files)
  next
    case (mentions_raise loaded j me e)
    then show ?thesis
      by (simp add: br_mentions_raise quiet_shape[OF adds_emit[OF adds_emit[OF am pg] lg]]
          files_emit after_mentions_files)
  next
    case (no_mentions loaded j me)
    then show ?thesis
      by (simp add: br_no_mentions quiet_shape[OF ams] after_mentions_files)
  next
    case (loop_raises loaded j me m ms e st2)
    from loop[of me loaded j "m # ms"] loop_raises(4) have a: "adds ?P st st2" by simp
    from loopf[of me loaded j "m # ms"] loop_raises(4) have f: "files st2 = files st" by simp
    from loop_raises show ?thesis
      by (simp add: br_loop_raises quiet_shape[OF adds_emit[OF a lg]] files_emit f)
  next
    case (saved loaded j me m ms p st2 st3)
    from loop[of me loaded j "m # ms"] saved(4) have a: "adds ?P st st2" by simp
    from loop_adds[of "m # ms" ?P me "after_mentions st j" w loaded] saved(4)
    have a1: "adds ?P (after_mentions st j) st2" by (simp add: allows_no_write)
    have es: "new_events st st2 =
        [Call GetMe True, Call (GetUsersMentions j) True] @ new_events (after_mentions st j) st2"
      using new_events_trans[OF ams a1] by (simp add: after_mentions_events)
    have mk: "set p = set loaded \<union> set (marks (new_events st st2))"
      using loop_marks[OF saved(4)] by (simp only: es marks_prefix)
    have na: "list_all ?P (new_events st st2)" by (rule adds_new_events(1)[OF a])
    have br: "bot_respond w st = (Inr Completed, st3)"
      using saved by (simp add: br_saved)
    show ?thesis
    proof (cases "file_write w (clock st2) PROCESSED_MENTIONS_FILE")
      case None
      from save_events(1)[OF a None, of p] saved(5)
      have e: "new_events st st3 =
          new_events st st2 @ Call (WriteFile PROCESSED_MENTIONS_FILE p) True
            # (if True then [] else [Log ERROR ''Failed to save''])" by simp
      from saved(5) None have f: "True \<longrightarrow> files st3 PROCESSED_MENTIONS_FILE = Some (Doc (JArr p))"
        by (auto simp: save_json_set_ok)
      from written_shape[OF na e saved(1) mk f] br show ?thesis by simp
    next
      case (Some fault)
      show ?thesis
      proof (cases "exn_class (fault_exn fault) = OSError")
        case True
        from save_events(2)[OF a Some True, of p] saved(5)
        have e: "new_events st st3 =
            new_events st st2 @ Call (WriteFile PROCESSED_MENTIONS_FILE p) False
              # (if False then [] else [Log ERROR ''Failed to save''])" by simp
        have f: "False \<longrightarrow> files st3 PROCESSED_MENTIONS_FILE = Some (Doc (JArr p))" by simp
        from written_shape[OF na e saved(1) mk f] br show ?thesis by simp
      next
        case False
        with Some saved(5) show ?thesis by (simp add: save_json_set_raises)
      qed
    qed
  next
    case (save_raises loaded j me m ms p st2 e st3)
    from loop[of me loaded j "m # ms"] save_raises(4) have a: "adds ?P st st2" by simp
    have na: "list_all ?P (new_events st st2)" by (rule adds_new_events(1)[OF a])
    have br: "bot_respond w st =
        (Inr (Caught e), emit (Log ERROR ''Mentions processing error'') st3)"
      using save_raises by (simp add: br_save_raises)
    show ?thesis
    proof (cases "file_write w (clock st2) PROCESSED_MENTIONS_FILE")
      case None
      with save_raises(5) show ?thesis by (simp add: save_json_set_ok)
    next
      case (Some fault)
      show ?thesis
      proof (cases "exn_class (fault_exn fault) = OSError")
        case True
        with Some save_raises(5) show ?thesis by (simp add: save_json_set_caught)
      next
        case False
        with Some have o: "\<not> os_faults w" by (auto simp: os_faults_def)
        from save_events(3)[OF a Some False, of p] save_raises(5)
        have e3: "new_events st st3 =
            new_events st st2 @ [Call (WriteFile PROCESSED_MENTIONS_FILE p) False]" by simp
        have "adds (\<lambda>e. True) st2 (snd (save_json_set w st2 p PROCESSED_MENTIONS_FILE))"
          by (rule save_adds) simp_all
        with save_raises(5) have "adds (\<lambda>e. True) st2 st3" by simp
        with adds_any[OF a] have "adds (\<lambda>e. True) st st3" by (rule adds_trans)
        then have "length (trace st) \<le> length (trace st3)" by (rule adds_length)
        then have e: "new_events st (emit (Log ERROR ''Mentions processing error'') st3) =
            new_events st st2 @ [Call (WriteFile PROCESSED_MENTIONS_FILE p) False,
                                  Log ERROR ''Mentions processing error'']"
          by (simp add: new_events_emit e3)
        from raised_write_shape[OF na e o] br show ?thesis by simp
      qed
    qed
  qed
qed

lemma failed_write_is_write: "failed_write e \<Longrightarrow> is_write e"
  by (cases e) (auto simp: failed_write_def is_write_def split: api_call.splits)

section \<open>Example runs\<close>

lemma py_str_42: "py_str 42 = ascii ''42''"
  by (simp add: py_str_def str_nat.simps ascii_def)

lemma py_str_43: "py_str 43 = ascii ''43''"
  by (simp add: py_str_def str_nat.simps ascii_def)

lemmas run_simps =
  bot_respond_def respond_try_def respond_to_mention_def safe_post_tweet_def v1_fallback_def
  save_json_set_def load_json_set_def py_set_def py_set_of_def py_add_def py_member_def
  py_eq_def hashable_def seen_def py_str_def str_nat.simps calm_world_def
  emit_def clock_def truncate_text_def TWITTER_CHAR_LIMIT_def media_kwarg_def
  reply_kwarg_def quota_error_def py_lower_def lower_char_def fault_exn_def disk_after_def
  Let_def ascii_def PROCESSED_MENTIONS_FILE_def new_events_def

lemma trace_disk_42: "trace disk_42 = []"
  by (simp add: disk_42_def)

lemma run_busy:
  "bot_respond busy_world disk_42 =
     (Inr Completed,
      \<lparr> trace = [Call GetMe True, Call (GetUsersMentions 1) True, Call (GetUser 8) True,
           Call (GenerateResponse (ascii ''alice'') (ascii ''9dttt'') (ascii ''@9dttt rematch'')) True,
           Call (CreateTweet (ascii ''Challenge accepted.'') None (Some 43)) True,
           Log INFO ''Posted via v2'', Call (Like 43) True, Log INFO ''Replied'',
           Call (WriteFile PROCESSED_MENTIONS_FILE [JStr (ascii ''42''), JStr (ascii ''43'')]) True],
        files = [PROCESSED_MENTIONS_FILE \<mapsto> Doc (JArr [JStr (ascii ''42''), JStr (ascii ''43'')])] \<rparr>)"
  by (simp add: bot_respond_def respond_try_def respond_to_mention_def safe_post_tweet_def
      save_json_set_def load_json_set_def py_set_def py_set_of_def py_add_def py_member_def
      py_eq_def hashable_def seen_def py_str_42 py_str_43 busy_world_def calm_world_def
      disk_42_def emit_def clock_def truncate_text_def TWITTER_CHAR_LIMIT_def media_kwarg_def
      reply_kwarg_def Let_def ascii_def PROCESSED_MENTIONS_FILE_def)

lemma run_calm:
  "bot_respond calm_world disk_42 =
     (Inr NoMentions, disk_42\<lparr>trace := [Call GetMe True, Call (GetUsersMentions 1) True]\<rparr>)"
  by (simp add: run_simps disk_42_def)

lemma run_busy_full_disk:
  "bot_respond busy_full_disk_world disk_42 =
     (Inr Completed,
      \<lparr> trace = [Call GetMe True, Call (GetUsersMentions 1) True, Call (GetUser 8) True,
           Call (GenerateResponse (ascii ''alice'') (ascii ''9dttt'') (ascii ''@9dttt rematch'')) True,
           Call (CreateTweet (ascii ''Challenge accepted.'') None (Some 43)) True,
           Log INFO ''Posted via v2'', Call (Like 43) True, Log INFO ''Replied'',
           Call (WriteFile PROCESSED_MENTIONS_FILE [JStr (ascii ''42''), JStr (ascii ''43'')]) False,
           Log ERROR ''Failed to save''],
        files = [PROCESSED_MENTIONS_FILE \<mapsto> Unparseable] \<rparr>)"
  by (simp add: run_simps busy_full_disk_world_def busy_world_def disk_42_def)

lemma os_faults_calm: "os_faults calm_world" "os_faults busy_world"
  by (simp_all add: os_faults_def calm_world_def busy_world_def)

section \<open>The claims about the cycle\<close>

text \<open>
  Claim C2.  A mention whose identifier is in the set is passed over by the loop body
  with nothing done: the set and the state, trace and files, stay as they are, so there
  is no author lookup, no post and no like.  The loop over a batch is the loop over the
  batch without the mentions that are in the set it starts from.  And in a whole cycle no
  event replies to, or likes, an identifier that was in the loaded set.
\<close>

theorem bot_respond_skips_seen:
  "(seen processed m \<longrightarrow> respond_to_mention w me processed st m = (Inr processed, st))
   \<and> respond_loop w me processed st ms =
       respond_loop w me processed st (filter (\<lambda>m. \<not> seen processed m) ms)
   \<and> (load_json_set st PROCESSED_MENTIONS_FILE = Inr loaded \<longrightarrow>
        py_member (JStr (py_str i)) loaded \<longrightarrow>
        \<not> list_ex (touches i) (new_events st (snd (bot_respond w st))))"
proof (intro conjI impI)
  assume "seen processed m"
  then show "respond_to_mention w me processed st m = (Inr processed, st)"
    by (rule rtm_seen)
next
  show "respond_loop w me processed st ms =
        respond_loop w me processed st (filter (\<lambda>m. \<not> seen processed m) ms)"
    by (rule loop_skips) simp
next
  assume "load_json_set st PROCESSED_MENTIONS_FILE = Inr loaded"
    and "py_member (JStr (py_str i)) loaded"
  then have "adds (\<lambda>e. \<not> touches i e) st (snd (bot_respond w st))"
    by (simp add: br_never_touches py_member_JStr)
  then have "list_all (\<lambda>e. \<not> touches i e) (new_events st (snd (bot_respond w st)))"
    by (rule adds_new_events(1))
  then show "\<not> list_ex (touches i) (new_events st (snd (bot_respond w st)))"
    by (simp add: list_all_iff list_ex_iff)
qed

text \<open>
  The theorem at a file that holds \<open>["42"]\<close> and a batch with the mentions 42 and 43: the
  cycle posts one reply, to 43, and the file then holds both identifiers.
\<close>

theorem bot_respond_skips_seen_witness:
  "seen [JStr (ascii ''42'')] (Mention 42 7 (ascii ''@9dttt play''))
   \<and> respond_to_mention busy_world (ascii ''9dttt'') [JStr (ascii ''42'')] disk_42
        (Mention 42 7 (ascii ''@9dttt play'')) = (Inr [JStr (ascii ''42'')], disk_42)
   \<and> load_json_set disk_42 PROCESSED_MENTIONS_FILE = Inr [JStr (ascii ''42'')]
   \<and> py_member (JStr (py_str 42)) [JStr (ascii ''42'')]
   \<and> \<not> list_ex (touches 42) (new_events disk_42 (snd (bot_respond busy_world disk_42)))
   \<and> posted_texts (new_events disk_42 (snd (bot_respond busy_world disk_42))) =
       [ascii ''Challenge accepted.'']
   \<and> load_json_set (snd (bot_respond busy_world disk_42)) PROCESSED_MENTIONS_FILE =
       Inr [JStr (ascii ''42''), JStr (ascii ''43'')]"
proof -
  let ?m = "Mention 42 7 (ascii ''@9dttt play'')"
  note t = bot_respond_skips_seen[of "[JStr (ascii ''42'')]" ?m busy_world "ascii ''9dttt''"
      disk_42 "[]" "[JStr (ascii ''42'')]" 42]
  have s: "seen [JStr (ascii ''42'')] ?m"
    by (simp add: seen_def py_member_JStr py_str_42)
  have l: "load_json_set disk_42 PROCESSED_MENTIONS_FILE = Inr [JStr (ascii ''42'')]"
    by (simp add: disk_42_def load_json_set_def py_set_def hashable_def py_set_of_def
        py_add_def py_member_def)
  have m: "py_member (JStr (py_str 42)) [JStr (ascii ''42'')]"
    by (simp add: py_member_JStr py_str_42)
  have a: "respond_to_mention busy_world (ascii ''9dttt'') [JStr (ascii ''42'')] disk_42 ?m =
      (Inr [JStr (ascii ''42'')], disk_42)"
    using t s by blast
  have b: "\<not> list_ex (touches 42) (new_events disk_42 (snd (bot_respond busy_world disk_42)))"
    using t l m by blast
  have c: "posted_texts (new_events disk_42 (snd (bot_respond busy_world disk_42))) =
       [ascii ''Challenge accepted.'']"
    by (simp add: run_busy new_events_def trace_disk_42 posted_texts_simps posted_texts_def
        List.map_filter_def event_text_def call_text_def)
  have d: "load_json_set (snd (bot_respond busy_world disk_42)) PROCESSED_MENTIONS_FILE =
       Inr [JStr (ascii ''42''), JStr (ascii ''43'')]"
    by (simp add: run_busy load_json_set_def py_set_def hashable_def py_set_of_def
        py_add_def py_member_def py_eq_def ascii_def)
  from s a l m b c d show ?thesis by (intro conjI)
qed

text \<open>
  Claim C4, as the code has it.  A cycle attempts at most one write of the dedup file.
  A cycle that reaches the end of the loop attempts exactly one, as its last call: what
  it writes is the loaded identifiers together with every identifier marked in the
  cycle, and when the write succeeds that is the content of the file.  A cycle without a
  write attempt leaves the files as they were.  A cycle that ends early, by a \<open>return\<close>
  or by an exception, makes no write attempt (file faults being of class \<open>OSError\<close>), so
  every identifier marked in it is lost, not only the one in flight.
\<close>

theorem bot_respond_persists:
  "length (filter is_write (new_events st (snd (bot_respond w st)))) \<le> 1
   \<and> (fst (bot_respond w st) = Inr Completed \<longrightarrow>
        (\<exists>es p ok loaded.
           new_events st (snd (bot_respond w st)) =
             es @ Call (WriteFile PROCESSED_MENTIONS_FILE p) ok
                  # (if ok then [] else [Log ERROR ''Failed to save''])
           \<and> \<not> list_ex is_write es
           \<and> load_json_set st PROCESSED_MENTIONS_FILE = Inr loaded
           \<and> set p = set loaded \<union> set (marks es)
           \<and> (ok \<longrightarrow> files (snd (bot_respond w st)) PROCESSED_MENTIONS_FILE = Some (Doc (JArr p)))))
   \<and> (\<not> list_ex is_write (new_events st (snd (bot_respond w st))) \<longrightarrow>
        files (snd (bot_respond w st)) = files st)
   \<and> (os_faults w \<longrightarrow> fst (bot_respond w st) \<noteq> Inr Completed \<longrightarrow>
        \<not> list_ex is_write (new_events st (snd (bot_respond w st))))"
  using cycle_shape[of w st] unfolding persist_shape_def .

text \<open>
  The theorem at a cycle that completes (mentions 42 and 43, the file holding \<open>["42"]\<close>)
  and at one that ends early because there are no mentions.
\<close>

theorem bot_respond_persists_witness:
  "os_faults busy_world
   \<and> fst (bot_respond busy_world disk_42) = Inr Completed
   \<and> filter is_write (new_events disk_42 (snd (bot_respond busy_world disk_42))) =
       [Call (WriteFile PROCESSED_MENTIONS_FILE [JStr (ascii ''42''), JStr (ascii ''43'')]) True]
   \<and> files (snd (bot_respond busy_world disk_42)) PROCESSED_MENTIONS_FILE =
       Some (Doc (JArr [JStr (ascii ''42''), JStr (ascii ''43'')]))
   \<and> os_faults calm_world
   \<and> fst (bot_respond calm_world disk_42) = Inr NoMentions
   \<and> \<not> list_ex is_write (new_events disk_42 (snd (bot_respond calm_world disk_42)))
   \<and> files (snd (bot_respond calm_world disk_42)) = files disk_42"
proof -
  have b: "fst (bot_respond busy_world disk_42) = Inr Completed"
    "filter is_write (new_events disk_42 (snd (bot_respond busy_world disk_42))) =
       [Call (WriteFile PROCESSED_MENTIONS_FILE [JStr (ascii ''42''), JStr (ascii ''43'')]) True]"
    "files (snd (bot_respond busy_world disk_42)) PROCESSED_MENTIONS_FILE =
       Some (Doc (JArr [JStr (ascii ''42''), JStr (ascii ''43'')]))"
    by (simp_all add: run_busy new_events_def trace_disk_42 is_write_def)
  have c: "fst (bot_respond calm_world disk_42) = Inr NoMentions"
    by (simp add: run_calm)
  then have "fst (bot_respond calm_world disk_42) \<noteq> Inr Completed" by simp
  with bot_respond_persists[of disk_42 calm_world] os_faults_calm(1)
  have d: "\<not> list_ex is_write (new_events disk_42 (snd (bot_respond calm_world disk_42)))"
    "files (snd (bot_respond calm_world disk_42)) = files disk_42"
    by blast+
  from b c d os_faults_calm show ?thesis by (intro conjI)
qed

text \<open>
  Claim C4 as stated fails.  The batch holds the mentions 43 and 44; the reply to 43 is
  posted and liked, then the author lookup for 44 raises.  The cycle ends without any
  write, the file still holds \<open>["42"]\<close> only, and in the next cycle the mention 43, which
  was not the one in flight, is not seen as processed.
\<close>

theorem bot_respond_loses_marks_counterexample:
  "fst (bot_respond second_lookup_raises_world disk_42) =
     Inr (Caught (Exn TweepyException (ascii ''503 Service Unavailable'')))
   \<and> new_events disk_42 (snd (bot_respond second_lookup_raises_world disk_42)) =
       [Call GetMe True, Call (GetUsersMentions 1) True, Call (GetUser 7) True,
        Call (GenerateResponse (ascii ''alice'') (ascii ''9dttt'') (ascii ''@9dttt play'')) True,
        Call (CreateTweet (ascii ''Challenge accepted.'') None (Some 43)) True,
        Log INFO ''Posted via v2'', Call (Like 43) True, Log INFO ''Replied'',
        Call (GetUser 8) False, Log ERROR ''Mentions processing error'']
   \<and> load_json_set (snd (bot_respond second_lookup_raises_world disk_42)) PROCESSED_MENTIONS_FILE =
       Inr [JStr (ascii ''42'')]
   \<and> \<not> seen [JStr (ascii ''42'')] mention_43"
  by (simp add: run_simps second_lookup_raises_world_def disk_42_def mention_43_def)

text \<open>
  Claim C5, as the code has it.  When the author lookup returns no data, or the reply
  post returns \<open>False\<close>, the loop goes on to the next mention with the set unchanged.  When
  a call made for the mention raises (the loop body ends in \<open>Inl\<close>), the loop ends there:
  the remaining mentions are not looked at, and the cycle logs the exception and ends
  without saving.
\<close>

theorem per_mention_failure:
  "(\<not> seen processed m \<longrightarrow> get_user w (clock st) (author_id m) = Inr None \<longrightarrow>
      respond_loop w me processed st (m # ms) =
        respond_loop w me processed (after_lookup st m) ms)
   \<and> (\<not> seen processed m \<longrightarrow> get_user w (clock st) (author_id m) = Inr (Some u) \<longrightarrow>
        generate_contextual_response w (clock (after_lookup st m)) u me (mention_text m) = Inr resp \<longrightarrow>
        reply_result w st m u me resp = (Inr False, st2) \<longrightarrow>
        respond_loop w me processed st (m # ms) =
          respond_loop w me processed (emit (Log ERROR ''Reply failed'') st2) ms)
   \<and> (respond_to_mention w me processed st m = (Inl e, st1) \<longrightarrow>
        respond_loop w me processed st (m # ms) = (Inl e, st1))
   \<and> (load_json_set st PROCESSED_MENTIONS_FILE = Inr loaded \<longrightarrow>
        get_me w (clock st) = Inr (Some (i, me)) \<longrightarrow>
        get_users_mentions w (clock (after_me st)) i = Inr (Some (m # ms)) \<longrightarrow>
        respond_loop w me loaded (after_mentions st i) (m # ms) = (Inl e, st1) \<longrightarrow>
        bot_respond w st = (Inr (Caught e), emit (Log ERROR ''Mentions processing error'') st1))"
  by (simp add: rtm_lookup_empty rtm_post_failed br_loop_raises del: respond_loop.simps)
     (simp add: rtm_lookup_empty rtm_post_failed)

text \<open>
  The theorem at a lookup without data, at a post refused with 403, and at a lookup that
  raises.
\<close>

theorem per_mention_failure_witness:
  "\<not> seen [] mention_43
   \<and> get_user unknown_author_world (clock state0) (author_id mention_43) = Inr None
   \<and> respond_loop unknown_author_world (ascii ''9dttt'') [] state0 [mention_43, mention_44] =
       respond_loop unknown_author_world (ascii ''9dttt'') [] (after_lookup state0 mention_43)
         [mention_44]
   \<and> fst (reply_result forbidden_world state0 mention_43 (ascii ''alice'') (ascii ''9dttt'')
            (ascii ''Challenge accepted.'')) = Inr False
   \<and> respond_loop forbidden_world (ascii ''9dttt'') [] state0 [mention_43, mention_44] =
       respond_loop forbidden_world (ascii ''9dttt'') []
         (emit (Log ERROR ''Reply failed'')
            (snd (reply_result forbidden_world state0 mention_43 (ascii ''alice'') (ascii ''9dttt'')
                    (ascii ''Challenge accepted.''))))
         [mention_44]
   \<and> fst (respond_to_mention first_lookup_raises_world (ascii ''9dttt'') [] state0 mention_43) =
       Inl (Exn TweepyException (ascii ''503 Service Unavailable''))
   \<and> fst (respond_loop first_lookup_raises_world (ascii ''9dttt'') [] state0
            [mention_43, mention_44]) =
       Inl (Exn TweepyException (ascii ''503 Service Unavailable''))"
proof -
  let ?me = "ascii ''9dttt''"
  let ?r = "reply_result forbidden_world state0 mention_43 (ascii ''alice'') ?me
              (ascii ''Challenge accepted.'')"
  let ?e = "Exn TweepyException (ascii ''503 Service Unavailable'')"
  let ?s = "snd (respond_to_mention first_lookup_raises_world ?me [] state0 mention_43)"
  have ns: "\<not> seen [] mention_43" by (rule seen_empty)
  have g1: "get_user unknown_author_world (clock state0) (author_id mention_43) = Inr None"
    by (simp add: unknown_author_world_def mention_43_def)
  have g2: "get_user forbidden_world (clock state0) (author_id mention_43) = Inr (Some (ascii ''alice''))"
    by (simp add: forbidden_world_def calm_world_def)
  have g3: "generate_contextual_response forbidden_world (clock (after_lookup state0 mention_43))
              (ascii ''alice'') ?me (mention_text mention_43) = Inr (ascii ''Challenge accepted.'')"
    by (simp add: forbidden_world_def calm_world_def)
  have r1: "fst ?r = Inr False"
    by (simp add: reply_result_def safe_post_tweet_def forbidden_world_def calm_world_def
        quota_error_def py_lower_def lower_char_def ascii_def Let_def)
  then have r2: "?r = (Inr False, snd ?r)"
    by (metis prod.collapse)
  have f1: "respond_to_mention first_lookup_raises_world ?me [] state0 mention_43 = (Inl ?e, ?s)"
    by (simp add: respond_to_mention_def seen_empty first_lookup_raises_world_def mention_43_def)
  note t1 = per_mention_failure[of "[]" mention_43 unknown_author_world state0 ?me "[mention_44]"]
  note t2 = per_mention_failure[of "[]" mention_43 forbidden_world state0 ?me "[mention_44]"
      "ascii ''alice''" "ascii ''Challenge accepted.''" "snd ?r"]
  note t3 = per_mention_failure[of "[]" mention_43 first_lookup_raises_world state0 ?me
      "[mention_44]" _ _ _ ?e ?s]
  have a: "respond_loop unknown_author_world ?me [] state0 [mention_43, mention_44] =
       respond_loop unknown_author_world ?me [] (after_lookup state0 mention_43) [mention_44]"
    using t1 ns g1 by blast
  have b: "respond_loop forbidden_world ?me [] state0 [mention_43, mention_44] =
       respond_loop forbidden_world ?me [] (emit (Log ERROR ''Reply failed'') (snd ?r)) [mention_44]"
    using t2 ns g2 g3 r2 by blast
  have c: "respond_loop first_lookup_raises_world ?me [] state0 [mention_43, mention_44] = (Inl ?e, ?s)"
    using t3 f1 by blast
  have d: "fst (respond_to_mention first_lookup_raises_world ?me [] state0 mention_43) = Inl ?e"
    using f1 by (metis fst_conv)
  have e: "fst (respond_loop first_lookup_raises_world ?me [] state0 [mention_43, mention_44]) = Inl ?e"
    using c by simp
  from ns g1 a r1 b d e show ?thesis by (intro conjI)
qed

text \<open>
  Claim C5 as stated fails: the author lookup for the first mention of the batch raises,
  and the cycle ends there.  The second mention is never looked up.
\<close>

theorem per_mention_failure_aborts_counterexample:
  "get_users_mentions first_lookup_raises_world 1 1 = Inr (Some [mention_43, mention_44])
   \<and> fst (bot_respond first_lookup_raises_world state0) =
       Inr (Caught (Exn TweepyException (ascii ''503 Service Unavailable'')))
   \<and> new_events state0 (snd (bot_respond first_lookup_raises_world state0)) =
       [Call GetMe True, Call (GetUsersMentions 1) True, Call (GetUser 7) False,
        Log ERROR ''Mentions processing error'']"
  by (simp add: run_simps first_lookup_raises_world_def state0_def mention_43_def mention_44_def)

text \<open>
  Claim C10, as the code has it.  An \<open>OSError\<close> while writing is caught and logged, and
  \<open>save_json_set\<close> returns normally.  When \<open>open\<close> failed the files are as before; when
  \<open>json.dump\<close> failed, the file has been emptied by \<open>open(filename, 'w')\<close> and what it
  holds cannot be loaded.  A cycle whose write fails still completes.
\<close>

theorem save_json_set_catches:
  "(file_write w (clock st) filename = Some fault \<longrightarrow> exn_class (fault_exn fault) = OSError \<longrightarrow>
      fst (save_json_set w st data filename) = Inr ()
      \<and> new_events st (snd (save_json_set w st data filename)) =
          [Call (WriteFile filename data) False, Log ERROR ''Failed to save'']
      \<and> files (snd (save_json_set w st data filename)) =
          (case fault of OpenFails e \<Rightarrow> files st
           | DumpFails e \<Rightarrow> (files st)(filename \<mapsto> Unparseable)))
   \<and> (os_faults w \<longrightarrow> fst (save_json_set w st data filename) = Inr ())
   \<and> (os_faults w \<longrightarrow> list_ex failed_write (new_events st (snd (bot_respond w st))) \<longrightarrow>
        fst (bot_respond w st) = Inr Completed)"
proof (intro conjI impI)
  assume f: "file_write w (clock st) filename = Some fault"
    and c: "exn_class (fault_exn fault) = OSError"
  show "fst (save_json_set w st data filename) = Inr ()"
    by (simp add: save_json_set_caught[OF f c])
  show "new_events st (snd (save_json_set w st data filename)) =
          [Call (WriteFile filename data) False, Log ERROR ''Failed to save'']"
    by (simp add: save_json_set_caught[OF f c] new_events_def emit_def)
  show "files (snd (save_json_set w st data filename)) =
          (case fault of OpenFails e \<Rightarrow> files st
           | DumpFails e \<Rightarrow> (files st)(filename \<mapsto> Unparseable))"
    by (simp add: save_json_set_caught[OF f c] files_emit disk_after_def)
next
  assume o: "os_faults w"
  show "fst (save_json_set w st data filename) = Inr ()"
  proof (cases "file_write w (clock st) filename")
    case None
    then show ?thesis by (simp add: save_json_set_ok)
  next
    case (Some fault)
    with o have "exn_class (fault_exn fault) = OSError" by (auto simp: os_faults_def)
    with Some show ?thesis by (simp add: save_json_set_caught)
  qed
next
  assume o: "os_faults w"
    and f: "list_ex failed_write (new_events st (snd (bot_respond w st)))"
  from f have "list_ex is_write (new_events st (snd (bot_respond w st)))"
    using failed_write_is_write by (auto simp: list_ex_iff)
  with o cycle_shape[of w st] show "fst (bot_respond w st) = Inr Completed"
    unfolding persist_shape_def by blast
qed

text \<open>
  The theorem at a file that cannot be opened for writing, and at a cycle on a full disk.
\<close>

theorem save_json_set_catches_witness:
  "file_write read_only_world (clock disk_42) PROCESSED_MENTIONS_FILE =
     Some (OpenFails (Exn OSError (ascii ''Permission denied'')))
   \<and> exn_class (fault_exn (OpenFails (Exn OSError (ascii ''Permission denied'')))) = OSError
   \<and> fst (save_json_set read_only_world disk_42 [JStr (ascii ''43'')] PROCESSED_MENTIONS_FILE) = Inr ()
   \<and> files (snd (save_json_set read_only_world disk_42 [JStr (ascii ''43'')] PROCESSED_MENTIONS_FILE)) =
       files disk_42
   \<and> os_faults busy_full_disk_world
   \<and> list_ex failed_write (new_events disk_42 (snd (bot_respond busy_full_disk_world disk_42)))
   \<and> fst (bot_respond busy_full_disk_world disk_42) = Inr Completed"
proof -
  let ?fault = "OpenFails (Exn OSError (ascii ''Permission denied''))"
  have f: "file_write read_only_world (clock disk_42) PROCESSED_MENTIONS_FILE = Some ?fault"
    by (simp add: read_only_world_def)
  have c: "exn_class (fault_exn ?fault) = OSError"
    by (simp add: fault_exn_def)
  note t = save_json_set_catches[of read_only_world disk_42 PROCESSED_MENTIONS_FILE ?fault
      "[JStr (ascii ''43'')]"]
  from t f c have a:
    "fst (save_json_set read_only_world disk_42 [JStr (ascii ''43'')] PROCESSED_MENTIONS_FILE) = Inr ()"
    "files (snd (save_json_set read_only_world disk_42 [JStr (ascii ''43'')] PROCESSED_MENTIONS_FILE)) =
       files disk_42"
    by simp_all
  have o: "os_faults busy_full_disk_world"
    by (simp add: os_faults_def busy_full_disk_world_def fault_exn_def)
  have w: "list_ex failed_write (new_events disk_42 (snd (bot_respond busy_full_disk_world disk_42)))"
    by (simp add: run_busy_full_disk new_events_def trace_disk_42 failed_write_def)
  from save_json_set_catches[of busy_full_disk_world disk_42] o w
  have d: "fst (bot_respond busy_full_disk_world disk_42) = Inr Completed" by blast
  from f c a o w d show ?thesis by (intro conjI)
qed

text \<open>
  Claim C10 as stated fails: the disk fills up while \<open>json.dump\<close> writes.  \<open>save_json_set\<close>
  returns normally, but the file that held \<open>["42"]\<close> was emptied by \<open>open(filename, 'w')\<close>,
  and the next \<open>load_json_set\<close> does not see the last successful save: it raises.
\<close>

theorem save_json_set_truncates_counterexample:
  "load_json_set disk_42 PROCESSED_MENTIONS_FILE = Inr [JStr (ascii ''42'')]
   \<and> fst (save_json_set full_disk_world disk_42 [JStr (ascii ''42''), JStr (ascii ''43'')]
           PROCESSED_MENTIONS_FILE) = Inr ()
   \<and> load_json_set
        (snd (save_json_set full_disk_world disk_42 [JStr (ascii ''42''), JStr (ascii ''43'')]
           PROCESSED_MENTIONS_FILE)) PROCESSED_MENTIONS_FILE =
       Inl (Exn OtherException (ascii ''JSONDecodeError''))"
proof -
  have f: "file_write full_disk_world (clock disk_42) PROCESSED_MENTIONS_FILE =
        Some (DumpFails (Exn OSError (ascii ''No space left on device'')))"
    by (simp add: full_disk_world_def)
  have c: "exn_class (fault_exn (DumpFails (Exn OSError (ascii ''No space left on device'')))) = OSError"
    by (simp add: fault_exn_def)
  have l: "load_json_set disk_42 PROCESSED_MENTIONS_FILE = Inr [JStr (ascii ''42'')]"
    by (simp add: disk_42_def load_json_set_def py_set_def hashable_def py_set_of_def
      py_add_def py_member_def)
  have r: "fst (save_json_set full_disk_world disk_42 [JStr (ascii ''42''), JStr (ascii ''43'')]
           PROCESSED_MENTIONS_FILE) = Inr ()"
    by (simp add: save_json_set_caught[OF f c])
  have t: "load_json_set
        (snd (save_json_set full_disk_world disk_42 [JStr (ascii ''42''), JStr (ascii ''43'')]
           PROCESSED_MENTIONS_FILE)) PROCESSED_MENTIONS_FILE =
       Inl (Exn OtherException (ascii ''JSONDecodeError''))"
    by (simp add: save_json_set_caught[OF f c] load_json_set_def files_emit disk_after_def)
  show ?thesis
    by (intro conjI l r t)
qed

end
